theory Spec2Isabelle
  imports Main "HOL-Library.Signed_Division"
begin

section \<open>Data model (src/lib/types/index.ts)\<close>

text \<open>
  \<^verbatim>\<open>TranscriptionStatus = 'pending' | 'processing' | 'completed' | 'error'\<close>
\<close>

datatype TranscriptionStatus = Pending | Processing | Completed | Error

text \<open>
  \<^verbatim>\<open>TranscriptionData\<close>. An optional field is an \<open>option\<close>; \<open>None\<close> stands for
  \<^verbatim>\<open>undefined\<close> (and JSON \<^verbatim>\<open>null\<close>). A \<^verbatim>\<open>Date\<close> is its millisecond
  timestamp.
\<close>

record TranscriptionData =
  status :: TranscriptionStatus
  text_t :: "string option"
  error :: "string option"
  service :: string
  jobId :: "string option"
  startedAt :: "int option"
  completedAt :: "int option"

section \<open>The AssemblyAI adapter: pure helpers (class AssemblyAIAdapter, in src/lib/stores/settings.ts)\<close>

text \<open>
  The offsets \<^verbatim>\<open>start\<close> and \<^verbatim>\<open>end\<close> of an utterance are JavaScript numbers, that is
  doubles. The model covers the safe integers (\<^verbatim>\<open>Number.isSafeInteger\<close>: whole numbers of
  magnitude below \<open>2 ^ 53\<close>), positive or negative. On these every double operation of
  \<^verbatim>\<open>formatTimestamp\<close> is exact integer arithmetic; a fractional offset, or one from
  \<open>2 ^ 53\<close> up, where the rounding of \<^verbatim>\<open>ms / 1000\<close> shows, is not a value of this type.
\<close>

typedef safe_integer = "{i::int. - (2 ^ 53) < i \<and> i < 2 ^ 53}"
  by (rule exI [of _ 0]) simp

text \<open>\<^verbatim>\<open>AssemblyAIUtterance\<close>; the unused floating-point field \<^verbatim>\<open>confidence\<close> is left out.\<close>

record AssemblyAIUtterance =
  u_speaker :: string
  u_text :: string
  u_start :: safe_integer
  u_end :: safe_integer

text \<open>
  \<^verbatim>\<open>mapStatus\<close>: a \<^verbatim>\<open>switch\<close> on the provider's status string with a
  \<^verbatim>\<open>default\<close> branch.
\<close>

definition mapStatus :: "string \<Rightarrow> TranscriptionStatus" where
  "mapStatus s =
     (if s = ''completed'' then Completed
      else if s = ''error'' then Error
      else if s = ''queued'' \<or> s = ''processing'' then Processing
      else Pending)"

text \<open>\<^verbatim>\<open>String(n)\<close> for an integer \<open>n\<close>: decimal digits, a leading minus sign when negative.\<close>

definition digit_char :: "nat \<Rightarrow> char" where
  "digit_char d = ''0123456789'' ! (d mod 10)"

fun string_of_nat :: "nat \<Rightarrow> string" where
  "string_of_nat n =
     (if n < 10 then [digit_char n] else string_of_nat (n div 10) @ [digit_char (n mod 10)])"

declare string_of_nat.simps [simp del]

definition string_of_int :: "int \<Rightarrow> string" where
  "string_of_int i = (if i < 0 then ''-'' @ string_of_nat (nat (- i)) else string_of_nat (nat i))"

text \<open>\<^verbatim>\<open>s.padStart(2, '0')\<close>\<close>

definition padStart2 :: "string \<Rightarrow> string" where
  "padStart2 s = replicate (2 - length s) (CHR ''0'') @ s"

text \<open>
  \<^verbatim>\<open>formatTimestamp(ms)\<close>, on a safe integer. \<^verbatim>\<open>Math.floor(a / b)\<close> is \<open>div\<close> on
  \<open>int\<close>; JavaScript's \<^verbatim>\<open>%\<close> takes the sign of the dividend, which is \<open>smod\<close>.
\<close>

definition formatTimestamp :: "safe_integer \<Rightarrow> string" where
  "formatTimestamp ms =
     (let totalSeconds = Rep_safe_integer ms div 1000;
          hours = totalSeconds div 3600;
          minutes = (totalSeconds smod 3600) div 60;
          seconds = totalSeconds smod 60
      in if hours > 0
         then string_of_int hours @ '':'' @ padStart2 (string_of_int minutes) @ '':''
              @ padStart2 (string_of_int seconds)
         else string_of_int minutes @ '':'' @ padStart2 (string_of_int seconds))"

text \<open>\<^verbatim>\<open>Array.prototype.join\<close> on strings.\<close>

fun join :: "string \<Rightarrow> string list \<Rightarrow> string" where
  "join sep [] = []"
| "join sep [x] = x"
| "join sep (x # y # ys) = x @ sep @ join sep (y # ys)"

definition newline :: string where
  "newline = [CHR 0x0A]"

text \<open>The template literal of \<^verbatim>\<open>formatUtterances\<close>'s callback.\<close>

definition utterance_block :: "AssemblyAIUtterance \<Rightarrow> string" where
  "utterance_block utterance =
     (let startTime = formatTimestamp (u_start utterance);
          endTime = formatTimestamp (u_end utterance)
      in ''['' @ startTime @ '' - '' @ endTime @ ''] Speaker '' @ u_speaker utterance @ '':''
         @ newline @ u_text utterance @ newline)"

definition formatUtterances :: "AssemblyAIUtterance list \<Rightarrow> string" where
  "formatUtterances utterances = join newline (map utterance_block utterances)"

text \<open>
  What the specification asks of the rendering, in its own words. A timestamp shows whole
  seconds as \<^verbatim>\<open>H:MM:SS\<close> from one hour on and as \<^verbatim>\<open>M:SS\<close> below, minutes and seconds
  with two digits; the seconds are the milliseconds floored. A segment is the header
  \<^verbatim>\<open>[start - end] Speaker label:\<close> on a line, then the text on a line. The segments
  are ordered by utterance start time. (Compared with \<^const>\<open>formatUtterances\<close> below.)
\<close>

definition two_digits :: "nat \<Rightarrow> string" where
  "two_digits n = [digit_char (n div 10), digit_char (n mod 10)]"

definition clock_text :: "nat \<Rightarrow> string" where
  "clock_text s =
     (if 3600 \<le> s
      then string_of_nat (s div 3600) @ '':'' @ two_digits (s div 60 mod 60) @ '':''
           @ two_digits (s mod 60)
      else string_of_nat (s div 60) @ '':'' @ two_digits (s mod 60))"

definition whole_seconds :: "safe_integer \<Rightarrow> nat" where
  "whole_seconds ms = nat (Rep_safe_integer ms div 1000)"

definition segment_text :: "AssemblyAIUtterance \<Rightarrow> string" where
  "segment_text u =
     ''['' @ clock_text (whole_seconds (u_start u)) @ '' - '' @ clock_text (whole_seconds (u_end u))
     @ ''] Speaker '' @ u_speaker u @ '':'' @ newline @ u_text u @ newline"

definition formatUtterances_by_start :: "AssemblyAIUtterance list \<Rightarrow> string" where
  "formatUtterances_by_start utterances =
     join newline (map segment_text (sort_key (\<lambda>u. Rep_safe_integer (u_start u)) utterances))"

section \<open>Recordings, results and settings (src/lib/types/index.ts)\<close>

datatype RecordingMode = ScreenAudio | AudioOnly

text \<open>A \<^verbatim>\<open>Blob\<close>: its MIME type and its bytes.\<close>

record Blob =
  blob_type :: string
  blob_bytes :: "nat list"

text \<open>
  \<^verbatim>\<open>Recording\<close>. The fields \<^verbatim>\<open>id\<close> and \<^verbatim>\<open>size\<close> carry a suffix because HOL has
  constants of these names; \<^verbatim>\<open>duration\<close> is not read by the code modelled here.
\<close>

record Recording =
  id_r :: string
  filename :: string
  blob :: Blob
  mimeType :: string
  size_r :: nat
  duration :: nat
  createdAt :: int
  isDownloaded :: bool
  recordingMode :: RecordingMode
  liveTranscription :: "string option"
  transcription :: "TranscriptionData option"

record TranscriptionOptions =
  language :: "string option"
  speaker_labels :: "bool option"
  speakers_expected :: "int option"

record TranscriptionResult =
  r_jobId :: "string option"
  r_status :: TranscriptionStatus
  r_text :: "string option"
  r_error :: "string option"

record TranscriptionStatusResult =
  s_status :: TranscriptionStatus
  s_text :: "string option"
  s_error :: "string option"

text \<open>
  The part of \<^verbatim>\<open>TranscriptionSettings\<close> that the manager reads. The service is a string:
  the settings are parsed from local storage.
\<close>

record TranscriptionSettings =
  enabled :: bool
  settings_service :: string
  assemblyAIKey :: string

section \<open>Effects: exceptions, the network, the stores, the clock\<close>

text \<open>A thrown value: an \<^verbatim>\<open>Error\<close> with its message, or anything else.\<close>

datatype js_exn = JsError string | JsOther

text \<open>How a call or an awaited promise ends.\<close>

datatype 'a outcome = Returned 'a | Thrown js_exn

text \<open>
  An HTTP response: \<^verbatim>\<open>ok\<close>, \<^verbatim>\<open>status\<close>, \<^verbatim>\<open>statusText\<close>, and what
  \<^verbatim>\<open>response.text()\<close> and \<^verbatim>\<open>response.json()\<close> give (either may reject). A
  \<^verbatim>\<open>fetch\<close> rejects or resolves with a response.
\<close>

record 'a http_response =
  ok :: bool
  http_status :: nat
  statusText :: string
  body_text :: "js_exn + string"
  body_json :: "js_exn + 'a"

datatype 'a fetch_result = FetchRejects js_exn | FetchResolves "'a http_response"

record AssemblyAIUploadResponse =
  upload_url :: string

record AssemblyAITranscriptResponse =
  a_id :: string
  a_status :: string
  a_text :: "string option"
  a_error :: "string option"
  a_utterances :: "AssemblyAIUtterance list option"
  a_speaker_labels :: "bool option"

text \<open>The JSON body that \<^verbatim>\<open>createTranscript\<close> posts.\<close>

record TranscriptRequest =
  audio_url :: string
  language_detection :: "bool option"
  language_code :: "string option"
  body_speaker_labels :: "bool option"
  body_speakers_expected :: "int option"
  punctuate :: "bool option"
  format_text :: "bool option"
  speech_model :: "string option"

text \<open>
  The three requests of the adapter, each with its authorization header:
  \<^verbatim>\<open>POST /upload\<close> (content type, body), \<^verbatim>\<open>POST /transcript\<close> (JSON body) and
  \<^verbatim>\<open>GET /transcript/{jobId}\<close>.
\<close>

datatype request =
  PostUpload string string Blob
| PostTranscript string TranscriptRequest
| GetTranscript string string

text \<open>
  The remote provider is an input of the model: how it answers the \<open>n\<close>-th request of a
  run, and how long that request takes (milliseconds).
\<close>

record network =
  upload_endpoint :: "nat \<Rightarrow> request \<Rightarrow> AssemblyAIUploadResponse fetch_result"
  transcript_endpoint :: "nat \<Rightarrow> request \<Rightarrow> AssemblyAITranscriptResponse fetch_result"
  latency :: "nat \<Rightarrow> nat"

text \<open>
  Everything the manager reads or changes: the settings store, the IndexedDB object store
  keyed by recording id, the in-memory \<^verbatim>\<open>recordings\<close> store, and the clock. Three logs
  record the effects of a run in order: the requests sent, the transcription data written
  by each successful \<^verbatim>\<open>recordings.update\<close>, and the timer waits.
\<close>

record world =
  settings :: TranscriptionSettings
  db :: "string \<rightharpoonup> Recording"
  recordings :: "Recording list"
  now :: int
  fetches :: "request list"
  writes :: "(string \<times> TranscriptionData) list"
  sleeps :: "nat list"

text \<open>An asynchronous computation: it ends by returning or throwing, in a changed world.\<close>

type_synonym 'a async = "world \<Rightarrow> 'a outcome \<times> world"

definition return_js :: "'a \<Rightarrow> 'a async" where
  "return_js v w = (Returned v, w)"

text \<open>\<^verbatim>\<open>const a = await m; f(a)\<close>: an exception of \<open>m\<close> skips \<open>f\<close>.\<close>

definition and_then :: "'a async \<Rightarrow> ('a \<Rightarrow> 'b async) \<Rightarrow> 'b async" where
  "and_then m f w = (case m w of (Thrown x, w') \<Rightarrow> (Thrown x, w') | (Returned a, w') \<Rightarrow> f a w')"

text \<open>\<^verbatim>\<open>try { body } catch (error) { handler }\<close>\<close>

definition try_catch :: "'a async \<Rightarrow> (js_exn \<Rightarrow> 'a async) \<Rightarrow> 'a async" where
  "try_catch body handler w =
     (case body w of (Thrown x, w') \<Rightarrow> handler x w' | (Returned a, w') \<Rightarrow> (Returned a, w'))"

text \<open>\<^verbatim>\<open>error instanceof Error ? error.message : fallback\<close>\<close>

definition message_or :: "js_exn \<Rightarrow> string \<Rightarrow> string" where
  "message_or x fallback = (case x of JsError m \<Rightarrow> m | JsOther \<Rightarrow> fallback)"

text \<open>Truthiness of an optional string, and \<^verbatim>\<open>a || b\<close> on optional strings.\<close>

definition truthy :: "string option \<Rightarrow> bool" where
  "truthy s = (case s of None \<Rightarrow> False | Some v \<Rightarrow> v \<noteq> [])"

definition js_or :: "string option \<Rightarrow> string option \<Rightarrow> string option" where
  "js_or a b = (if truthy a then a else b)"

text \<open>\<^verbatim>\<open>new Date()\<close> and \<^verbatim>\<open>Date.now()\<close>\<close>

definition new_Date :: "int async" where
  "new_Date w = (Returned (now w), w)"

text \<open>\<^verbatim>\<open>await new Promise(resolve => setTimeout(resolve, ms))\<close>\<close>

definition sleep :: "nat \<Rightarrow> unit async" where
  "sleep ms w = (Returned (), w\<lparr>now := now w + int ms, sleeps := sleeps w @ [ms]\<rparr>)"

text \<open>\<^verbatim>\<open>fetch\<close> against the upload endpoint and against the transcript endpoints.\<close>

definition fetch_upload :: "network \<Rightarrow> request \<Rightarrow> world \<Rightarrow> AssemblyAIUploadResponse fetch_result \<times> world" where
  "fetch_upload net req w =
     (upload_endpoint net (length (fetches w)) req,
      w\<lparr>now := now w + int (latency net (length (fetches w))), fetches := fetches w @ [req]\<rparr>)"

definition fetch_transcript :: "network \<Rightarrow> request \<Rightarrow> world \<Rightarrow> AssemblyAITranscriptResponse fetch_result \<times> world" where
  "fetch_transcript net req w =
     (transcript_endpoint net (length (fetches w)) req,
      w\<lparr>now := now w + int (latency net (length (fetches w))), fetches := fetches w @ [req]\<rparr>)"

section \<open>The recordings store (createRecordingsStore in src/unnamed/part_003, src/lib/db/indexeddb.ts)\<close>

text \<open>
  \<^verbatim>\<open>recordings.update(id, { transcription })\<close>: \<^verbatim>\<open>db.updateRecording\<close> throws when the id
  is not in the object store, else puts the merged record (the key path of the object
  store is \<^verbatim>\<open>id\<close>: the record stored under an id carries it); then the in-memory list
  is mapped, replacing the field on every element with this id.
\<close>

definition recordingsUpdate :: "string \<Rightarrow> TranscriptionData \<Rightarrow> unit async" where
  "recordingsUpdate i t w =
     (case db w i of
        None \<Rightarrow> (Thrown (JsError (''Recording with id '' @ i @ '' not found'')), w)
      | Some recording \<Rightarrow>
          (Returned (),
           w\<lparr>db := (db w)(i \<mapsto> recording\<lparr>transcription := Some t\<rparr>),
             recordings := map (\<lambda>r. if id_r r = i then r\<lparr>transcription := Some t\<rparr> else r) (recordings w),
             writes := writes w @ [(i, t)]\<rparr>))"

section \<open>The AssemblyAI adapter (class AssemblyAIAdapter, in src/lib/stores/settings.ts)\<close>

definition adapter_name :: string where
  "adapter_name = ''AssemblyAI''"

text \<open>\<^verbatim>\<open>uploadFile(blob)\<close>\<close>

definition uploadFile :: "network \<Rightarrow> string \<Rightarrow> Blob \<Rightarrow> string async" where
  "uploadFile net apiKey b w =
     (case fetch_upload net
             (PostUpload apiKey
                (if blob_type b \<noteq> [] then blob_type b else ''application/octet-stream'') b) w of
        (FetchRejects x, w') \<Rightarrow> (Thrown x, w')
      | (FetchResolves response, w') \<Rightarrow>
          if \<not> ok response
          then (Thrown (JsError (''Upload failed: '' @ string_of_nat (http_status response) @ '' ''
                                 @ statusText response)), w')
          else (case body_json response of
                  Inl x \<Rightarrow> (Thrown x, w')
                | Inr data \<Rightarrow> (Returned (upload_url data), w')))"

text \<open>The request body that \<^verbatim>\<open>createTranscript\<close> builds from the options.\<close>

definition transcript_body :: "string \<Rightarrow> TranscriptionOptions option \<Rightarrow> TranscriptRequest" where
  "transcript_body audioUrl options =
     (let lang = (case options of None \<Rightarrow> None | Some opts \<Rightarrow> language opts);
          labels = (case options of None \<Rightarrow> False | Some opts \<Rightarrow> speaker_labels opts = Some True);
          expected = (case options of None \<Rightarrow> None | Some opts \<Rightarrow> speakers_expected opts)
      in \<lparr>audio_url = audioUrl,
          language_detection = (if truthy lang \<and> lang = Some ''auto'' then Some True else None),
          language_code = (if truthy lang \<and> lang \<noteq> Some ''auto'' then lang else None),
          body_speaker_labels = (if labels then Some True else None),
          body_speakers_expected =
            (if labels \<and> expected \<noteq> None \<and> expected \<noteq> Some 0 then expected else None),
          punctuate = Some True,
          format_text = Some True,
          speech_model = Some ''universal-2''\<rparr>)"

text \<open>\<^verbatim>\<open>createTranscript(audioUrl, options)\<close>\<close>

definition createTranscript :: "network \<Rightarrow> string \<Rightarrow> string \<Rightarrow> TranscriptionOptions option \<Rightarrow> string async" where
  "createTranscript net apiKey audioUrl options w =
     (case fetch_transcript net (PostTranscript apiKey (transcript_body audioUrl options)) w of
        (FetchRejects x, w') \<Rightarrow> (Thrown x, w')
      | (FetchResolves response, w') \<Rightarrow>
          if \<not> ok response
          then (case body_text response of
                  Inl x \<Rightarrow> (Thrown x, w')
                | Inr errorBody \<Rightarrow>
                    (Thrown (JsError (''Transcription request failed: ''
                                      @ string_of_nat (http_status response) @ '' ''
                                      @ statusText response @ '' - '' @ errorBody)), w'))
          else (case body_json response of
                  Inl x \<Rightarrow> (Thrown x, w')
                | Inr data \<Rightarrow> (Returned (a_id data), w')))"

text \<open>\<^verbatim>\<open>AssemblyAIAdapter.transcribe(audioBlob, options)\<close>: the whole body is one try block.\<close>

definition adapter_transcribe :: "network \<Rightarrow> string \<Rightarrow> Blob \<Rightarrow> TranscriptionOptions option \<Rightarrow> TranscriptionResult async" where
  "adapter_transcribe net apiKey audioBlob options =
     try_catch
       (and_then (uploadFile net apiKey audioBlob) (\<lambda>uploadUrl.
        and_then (createTranscript net apiKey uploadUrl options) (\<lambda>transcriptId.
        return_js \<lparr>r_jobId = Some transcriptId, r_status = Processing,
                   r_text = None, r_error = None\<rparr>)))
       (\<lambda>error.
        return_js \<lparr>r_jobId = None, r_status = Error, r_text = None,
                   r_error = Some (message_or error ''Transcription failed'')\<rparr>)"

text \<open>The result that \<^verbatim>\<open>AssemblyAIAdapter.checkStatus\<close> builds from a parsed response.\<close>

definition status_result :: "AssemblyAITranscriptResponse \<Rightarrow> TranscriptionStatusResult" where
  "status_result data =
     (let formattedText =
            (if a_speaker_labels data = Some True
             then (case a_utterances data of
                     None \<Rightarrow> a_text data
                   | Some utterances \<Rightarrow>
                       if length utterances > 0 then Some (formatUtterances utterances)
                       else a_text data)
             else a_text data)
      in \<lparr>s_status = mapStatus (a_status data), s_text = formattedText, s_error = a_error data\<rparr>)"

text \<open>\<^verbatim>\<open>AssemblyAIAdapter.checkStatus(jobId)\<close>: again one try block around the whole body.\<close>

definition adapter_checkStatus :: "network \<Rightarrow> string \<Rightarrow> string \<Rightarrow> TranscriptionStatusResult async" where
  "adapter_checkStatus net apiKey j =
     try_catch
       (\<lambda>w. case fetch_transcript net (GetTranscript apiKey j) w of
          (FetchRejects x, w') \<Rightarrow> (Thrown x, w')
        | (FetchResolves response, w') \<Rightarrow>
            if \<not> ok response
            then (case body_text response of
                    Inl x \<Rightarrow> (Thrown x, w')
                  | Inr errorBody \<Rightarrow>
                      (Thrown (JsError (''API error: '' @ string_of_nat (http_status response)
                                        @ '' '' @ statusText response @ '' - '' @ errorBody)), w'))
            else (case body_json response of
                    Inl x \<Rightarrow> (Thrown x, w')
                  | Inr data \<Rightarrow> (Returned (status_result data), w')))
       (\<lambda>error.
        return_js \<lparr>s_status = Error, s_text = None,
                   s_error = Some (message_or error ''Failed to check status'')\<rparr>)"

text \<open>
  A provider reply to a poll is non-terminal when the adapter reads from it a status that
  is neither completed nor error: the request resolved, the response is ok, its JSON
  parses, and the provider's status maps to processing or pending.
\<close>

definition nonterminal_reply :: "AssemblyAITranscriptResponse fetch_result \<Rightarrow> bool" where
  "nonterminal_reply reply =
     (case reply of
        FetchRejects x \<Rightarrow> False
      | FetchResolves response \<Rightarrow>
          ok response \<and>
          (case body_json response of
             Inl x \<Rightarrow> False
           | Inr data \<Rightarrow> mapStatus (a_status data) = Processing \<or> mapStatus (a_status data) = Pending))"

section \<open>The transcription manager (class TranscriptionManager, in src/lib/transcription/live-speech.ts)\<close>

text \<open>
  \<^verbatim>\<open>getAdapter()\<close>. An adapter is determined by its API key; its \<^verbatim>\<open>name\<close> is
  \<^const>\<open>adapter_name\<close> and it always has a \<^verbatim>\<open>checkStatus\<close> method.
\<close>

definition getAdapter :: "world \<Rightarrow> string option" where
  "getAdapter w =
     (let currentSettings = settings w
      in if \<not> enabled currentSettings then None
         else if settings_service currentSettings \<noteq> ''assemblyai'' then None
         else if assemblyAIKey currentSettings = [] then None
         else Some (assemblyAIKey currentSettings))"

definition isAvailable :: "world \<Rightarrow> bool" where
  "isAvailable w = (getAdapter w \<noteq> None)"

definition maxAttempts :: nat where
  "maxAttempts = 120"

definition timeoutMs :: int where
  "timeoutMs = 10 * 60 * 1000"

text \<open>
  One pass through the body of the \<^verbatim>\<open>while\<close> loop of \<^verbatim>\<open>pollUntilComplete\<close>: the try
  block and its catch. The result is \<open>True\<close> when the pass executed a \<^verbatim>\<open>return\<close>, and
  \<open>False\<close> when the loop goes on (after the wait, with \<^verbatim>\<open>attempts++\<close>). In the spread
  \<^verbatim>\<open>...recording.transcription\<close>, \<open>t\<close> is the transcription of the recording that was
  passed in.
\<close>

definition poll_attempt :: "network \<Rightarrow> string \<Rightarrow> Recording \<Rightarrow> TranscriptionData \<Rightarrow> string \<Rightarrow> bool async" where
  "poll_attempt net apiKey recording t j =
     try_catch
       (and_then (adapter_checkStatus net apiKey j) (\<lambda>st.
        and_then new_Date (\<lambda>d.
        and_then (recordingsUpdate (id_r recording)
                    (t\<lparr>status := s_status st,
                       text_t := js_or (s_text st) (text_t t),
                       error := s_error st,
                       completedAt := (if s_status st = Completed then Some d else None)\<rparr>)) (\<lambda>_.
        if s_status st = Completed \<or> s_status st = Error then return_js True
        else and_then (sleep 5000) (\<lambda>_. return_js False)))))
       (\<lambda>error.
        and_then (recordingsUpdate (id_r recording)
                    (t\<lparr>status := Error,
                       error := Some (message_or error ''Failed to check status'')\<rparr>)) (\<lambda>_.
        return_js True))"

text \<open>The \<^verbatim>\<open>while (attempts < maxAttempts)\<close> loop and the timeout write after it.\<close>

function poll_loop :: "network \<Rightarrow> string \<Rightarrow> Recording \<Rightarrow> TranscriptionData \<Rightarrow> string \<Rightarrow> nat \<Rightarrow> unit async" where
  "poll_loop net apiKey recording t j attempts =
     (if attempts < maxAttempts
      then and_then (poll_attempt net apiKey recording t j) (\<lambda>returned.
             if returned then return_js ()
             else poll_loop net apiKey recording t j (Suc attempts))
      else recordingsUpdate (id_r recording)
             (t\<lparr>status := Error, error := Some ''Transcription polling timed out''\<rparr>))"
  by pat_completeness auto
termination
  by (relation "measure (\<lambda>(net, apiKey, recording, t, j, attempts). maxAttempts - attempts)") auto

declare poll_loop.simps [simp del]

text \<open>\<^verbatim>\<open>pollUntilComplete(recording)\<close>\<close>

definition pollUntilComplete :: "network \<Rightarrow> Recording \<Rightarrow> unit async" where
  "pollUntilComplete net recording w =
     (case getAdapter w of
        None \<Rightarrow> return_js () w
      | Some apiKey \<Rightarrow>
          (case transcription recording of
             None \<Rightarrow> return_js () w
           | Some t \<Rightarrow>
               (case jobId t of
                  None \<Rightarrow> return_js () w
                | Some j \<Rightarrow>
                    if j = [] then return_js () w
                    else poll_loop net apiKey recording t j 0 w)))"

text \<open>
  \<^verbatim>\<open>transcribe(recording, options)\<close>. The call \<^verbatim>\<open>this.pollUntilComplete(updatedRecording)\<close>
  is not awaited: the loop runs on its own after \<^verbatim>\<open>transcribe\<close> has returned, and what it
  throws does not reach the try block. The model returns the recording handed to that loop
  (\<open>None\<close> when no loop is started); the loop itself is a step of its own in the runs
  defined below.
\<close>

definition transcribe :: "network \<Rightarrow> Recording \<Rightarrow> TranscriptionOptions option \<Rightarrow> Recording option async" where
  "transcribe net recording options w =
     (case getAdapter w of
        None \<Rightarrow> return_js None w
      | Some apiKey \<Rightarrow>
          and_then new_Date (\<lambda>d0.
          and_then (recordingsUpdate (id_r recording)
                      \<lparr>status = Processing, text_t = None, error = None, service = adapter_name,
                       jobId = None, startedAt = Some d0, completedAt = None\<rparr>) (\<lambda>_.
          try_catch
            (and_then (adapter_transcribe net apiKey (blob recording) options) (\<lambda>result.
             and_then new_Date (\<lambda>d.
             and_then (recordingsUpdate (id_r recording)
                         \<lparr>status = r_status result, text_t = r_text result,
                          error = r_error result, service = adapter_name,
                          jobId = r_jobId result, startedAt = Some d,
                          completedAt = (if r_status result = Completed then Some d else None)\<rparr>) (\<lambda>_.
             if r_status result = Processing \<and> truthy (r_jobId result)
             then (\<lambda>w'. return_js (find (\<lambda>r. id_r r = id_r recording) (recordings w')) w')
             else return_js None))))
            (\<lambda>error.
             and_then (recordingsUpdate (id_r recording)
                         \<lparr>status = Error, text_t = None,
                          error = Some (message_or error ''Transcription failed''),
                          service = adapter_name, jobId = None, startedAt = None,
                          completedAt = None\<rparr>) (\<lambda>_.
             return_js None)))) w)"

text \<open>\<^verbatim>\<open>retryTranscription(recording, options)\<close>\<close>

definition retryTranscription :: "network \<Rightarrow> Recording \<Rightarrow> TranscriptionOptions option \<Rightarrow> Recording option async" where
  "retryTranscription net recording options = transcribe net recording options"

text \<open>\<^verbatim>\<open>checkStatus(recording)\<close> of the manager.\<close>

definition checkStatus :: "network \<Rightarrow> Recording \<Rightarrow> unit async" where
  "checkStatus net recording w =
     (case getAdapter w of
        None \<Rightarrow> return_js () w
      | Some apiKey \<Rightarrow>
          (case transcription recording of
             None \<Rightarrow> return_js () w
           | Some t \<Rightarrow>
               (case jobId t of
                  None \<Rightarrow> return_js () w
                | Some j \<Rightarrow>
                    if j = [] then return_js () w
                    else try_catch
                           (and_then (adapter_checkStatus net apiKey j) (\<lambda>st.
                            and_then new_Date (\<lambda>d.
                            recordingsUpdate (id_r recording)
                              (t\<lparr>status := s_status st,
                                 text_t := js_or (s_text st) (text_t t),
                                 error := s_error st,
                                 completedAt := (if s_status st = Completed then Some d else None)\<rparr>))))
                           (\<lambda>error. return_js ()) w)))"

text \<open>\<^verbatim>\<open>resumePolling(recording)\<close>\<close>

definition resumePolling :: "network \<Rightarrow> Recording \<Rightarrow> unit async" where
  "resumePolling net recording w =
     (case transcription recording of
        None \<Rightarrow> return_js () w
      | Some t \<Rightarrow>
          if status t \<noteq> Processing \<and> status t \<noteq> Pending then return_js () w
          else if \<not> truthy (jobId t) then return_js () w
          else (case startedAt t of
                  None \<Rightarrow> pollUntilComplete net recording w
                | Some started \<Rightarrow>
                    (let elapsed = now w - started
                     in if elapsed > timeoutMs
                        then recordingsUpdate (id_r recording)
                               (t\<lparr>status := Error,
                                  error := Some ''Transcription timed out (10 minutes)''\<rparr>) w
                        else pollUntilComplete net recording w)))"

text \<open>
  \<^verbatim>\<open>clearTimedOutTranscriptions()\<close>: the \<^verbatim>\<open>for\<close> loop over the list read from the store
  before the loop, with the running count.
\<close>

fun clearTimedOut_loop :: "Recording list \<Rightarrow> nat \<Rightarrow> nat async" where
  "clearTimedOut_loop [] clearedCount = return_js clearedCount"
| "clearTimedOut_loop (recording # rest) clearedCount =
     (case transcription recording of
        None \<Rightarrow> clearTimedOut_loop rest clearedCount
      | Some t \<Rightarrow>
          if status t = Processing \<or> status t = Pending
          then (case startedAt t of
                  None \<Rightarrow> clearTimedOut_loop rest clearedCount
                | Some started \<Rightarrow>
                    and_then new_Date (\<lambda>d.
                      if d - started > timeoutMs
                      then and_then (recordingsUpdate (id_r recording)
                                       (t\<lparr>status := Error, error := Some ''Cleared - timed out''\<rparr>)) (\<lambda>_.
                           clearTimedOut_loop rest (Suc clearedCount))
                      else clearTimedOut_loop rest clearedCount))
          else clearTimedOut_loop rest clearedCount)"

definition clearTimedOutTranscriptions :: "nat async" where
  "clearTimedOutTranscriptions w = clearTimedOut_loop (recordings w) 0 w"

text \<open>\<^verbatim>\<open>clearAllInProgressTranscriptions()\<close>\<close>

fun clearAll_loop :: "Recording list \<Rightarrow> nat \<Rightarrow> nat async" where
  "clearAll_loop [] clearedCount = return_js clearedCount"
| "clearAll_loop (recording # rest) clearedCount =
     (case transcription recording of
        None \<Rightarrow> clearAll_loop rest clearedCount
      | Some t \<Rightarrow>
          if status t = Processing \<or> status t = Pending
          then and_then (recordingsUpdate (id_r recording)
                           (t\<lparr>status := Error, error := Some ''Cleared by user''\<rparr>)) (\<lambda>_.
               clearAll_loop rest (Suc clearedCount))
          else clearAll_loop rest clearedCount)"

definition clearAllInProgressTranscriptions :: "nat async" where
  "clearAllInProgressTranscriptions w = clearAll_loop (recordings w) 0 w"

section \<open>Runs of the manager\<close>

text \<open>\<^verbatim>\<open>recordings.add\<close> and \<^verbatim>\<open>recordings.delete\<close> of the store.\<close>

definition recordingsAdd :: "Recording \<Rightarrow> world \<Rightarrow> world" where
  "recordingsAdd recording w =
     w\<lparr>db := (db w)(id_r recording \<mapsto> recording), recordings := recording # recordings w\<rparr>"

definition recordingsDelete :: "string \<Rightarrow> world \<Rightarrow> world" where
  "recordingsDelete i w =
     w\<lparr>db := (db w)(i := None), recordings := filter (\<lambda>r. id_r r \<noteq> i) (recordings w)\<rparr>"

text \<open>The property of a job that the specification states: completedAt is set exactly when
  the status is completed.\<close>

definition completedAt_iff_completed :: "TranscriptionData \<Rightarrow> bool" where
  "completedAt_iff_completed t \<longleftrightarrow> (completedAt t \<noteq> None \<longleftrightarrow> status t = Completed)"

text \<open>A world before any transcription: no stored record has a job, nothing is written yet.\<close>

definition fresh :: "world \<Rightarrow> bool" where
  "fresh w \<longleftrightarrow>
     (\<forall>r \<in> set (recordings w). transcription r = None)
     \<and> (\<forall>r \<in> ran (db w). transcription r = None) \<and> writes w = []"

text \<open>
  The worlds that runs of the manager reach. Every operation is handed a recording that the
  in-memory store held at some reached moment (the components pass the records they
  display, which may be stale by the time the operation runs). A polling loop started by
  \<^verbatim>\<open>transcribe\<close> runs at any later moment. Between operations the user may change the
  settings, add a new recording (\<^verbatim>\<open>createRecording\<close> gives it no transcription) or
  delete one, and time passes.
\<close>

inductive reachable :: "network \<Rightarrow> world \<Rightarrow> bool" for net :: network where
  r_fresh: "fresh w \<Longrightarrow> reachable net w"
| r_transcribe:
    "reachable net w \<Longrightarrow> reachable net w0 \<Longrightarrow> recording \<in> set (recordings w0)
     \<Longrightarrow> reachable net (snd (transcribe net recording options w))"
| r_retry:
    "reachable net w \<Longrightarrow> reachable net w0 \<Longrightarrow> recording \<in> set (recordings w0)
     \<Longrightarrow> reachable net (snd (retryTranscription net recording options w))"
| r_poll:
    "reachable net w \<Longrightarrow> reachable net w0 \<Longrightarrow> recording \<in> set (recordings w0)
     \<Longrightarrow> fst (transcribe net recording options w0) = Returned (Some updatedRecording)
     \<Longrightarrow> reachable net (snd (pollUntilComplete net updatedRecording w))"
| r_checkStatus:
    "reachable net w \<Longrightarrow> reachable net w0 \<Longrightarrow> recording \<in> set (recordings w0)
     \<Longrightarrow> reachable net (snd (checkStatus net recording w))"
| r_resumePolling:
    "reachable net w \<Longrightarrow> reachable net w0 \<Longrightarrow> recording \<in> set (recordings w0)
     \<Longrightarrow> reachable net (snd (resumePolling net recording w))"
| r_clearTimedOut:
    "reachable net w \<Longrightarrow> reachable net (snd (clearTimedOutTranscriptions w))"
| r_clearAll:
    "reachable net w \<Longrightarrow> reachable net (snd (clearAllInProgressTranscriptions w))"
| r_settings:
    "reachable net w \<Longrightarrow> reachable net (w\<lparr>settings := s\<rparr>)"
| r_add:
    "reachable net w \<Longrightarrow> transcription recording = None
     \<Longrightarrow> reachable net (recordingsAdd recording w)"
| r_delete:
    "reachable net w \<Longrightarrow> reachable net (recordingsDelete i w)"
| r_time:
    "reachable net w \<Longrightarrow> reachable net (w\<lparr>now := now w + int ms\<rparr>)"

text \<open>A record whose job is in progress: status processing or pending.\<close>

definition in_progress :: "Recording \<Rightarrow> bool" where
  "in_progress r =
     (case transcription r of
        None \<Rightarrow> False
      | Some t \<Rightarrow> status t = Processing \<or> status t = Pending)"

text \<open>
  What the specification says the bulk clear does to one record: an in-progress job becomes
  an error (with the message the code writes), any other record stays as it is.
\<close>

definition cleared_by_user :: "Recording \<Rightarrow> Recording" where
  "cleared_by_user r =
     (case transcription r of
        None \<Rightarrow> r
      | Some t \<Rightarrow>
          if status t = Processing \<or> status t = Pending
          then r\<lparr>transcription := Some (t\<lparr>status := Error, error := Some ''Cleared by user''\<rparr>)\<rparr>
          else r)"

text \<open>
  The stores as the application keeps them: ids are unique (\<^verbatim>\<open>crypto.randomUUID()\<close>), and
  the in-memory list holds exactly the records of the object store, each under its id.
\<close>

definition store_ok :: "world \<Rightarrow> bool" where
  "store_ok w \<longleftrightarrow>
     distinct (map id_r (recordings w))
     \<and> (\<forall>r \<in> set (recordings w). db w (id_r r) = Some r)
     \<and> dom (db w) = id_r ` set (recordings w)"

section \<open>Predicates used in the statements and proofs\<close>

text \<open>
  How the submission of \<^verbatim>\<open>AssemblyAIAdapter.transcribe\<close> ends: with the id that the
  transcript request returns, when the upload and the transcript request both succeed, or
  with what the failing request throws.
\<close>

definition submit_result :: "network \<Rightarrow> string \<Rightarrow> Blob \<Rightarrow> TranscriptionOptions option \<Rightarrow> world \<Rightarrow> js_exn + string" where
  "submit_result net apiKey audioBlob options w =
     (case uploadFile net apiKey audioBlob w of
        (Thrown x, w1) \<Rightarrow> Inl x
      | (Returned uploadUrl, w1) \<Rightarrow>
          (case createTranscript net apiKey uploadUrl options w1 of
             (Thrown x, w2) \<Rightarrow> Inl x
           | (Returned transcriptId, w2) \<Rightarrow> Inr transcriptId))"

text \<open>
  Every job in the two stores, and every job ever written, has completedAt set exactly
  when its status is completed.
\<close>

definition jobs_ok :: "world \<Rightarrow> bool" where
  "jobs_ok w \<longleftrightarrow>
     (\<forall>r \<in> set (recordings w). \<forall>t. transcription r = Some t \<longrightarrow> completedAt_iff_completed t)
     \<and> (\<forall>r \<in> ran (db w). \<forall>t. transcription r = Some t \<longrightarrow> completedAt_iff_completed t)
     \<and> (\<forall>(i, t) \<in> set (writes w). completedAt_iff_completed t)"

text \<open>A computation preserves a property of the world, however it ends.\<close>

definition preserves :: "(world \<Rightarrow> bool) \<Rightarrow> 'a async \<Rightarrow> bool" where
  "preserves I m \<longleftrightarrow> (\<forall>w. I w \<longrightarrow> I (snd (m w)))"

text \<open>
  What \<^verbatim>\<open>AssemblyAIAdapter.checkStatus\<close> makes of the reply to its request, case by case: a
  rejected request, a response that is not ok, or a body that cannot be read give status
  error with the message of what was thrown ("Failed to check status" when that is not an
  \<^verbatim>\<open>Error\<close>); a parsed response gives the mapped status, the rendered utterances (when
  speaker labels are on and there are utterances) or else the provider's text, and the
  provider's error.
\<close>

definition status_of_reply :: "AssemblyAITranscriptResponse fetch_result \<Rightarrow> TranscriptionStatusResult" where
  "status_of_reply reply =
     (case reply of
        FetchRejects x \<Rightarrow>
          \<lparr>s_status = Error, s_text = None,
           s_error = Some (case x of JsError m \<Rightarrow> m | JsOther \<Rightarrow> ''Failed to check status'')\<rparr>
      | FetchResolves response \<Rightarrow>
          if \<not> ok response
          then (case body_text response of
                  Inl x \<Rightarrow>
                    \<lparr>s_status = Error, s_text = None,
                     s_error = Some (case x of JsError m \<Rightarrow> m
                                     | JsOther \<Rightarrow> ''Failed to check status'')\<rparr>
                | Inr errorBody \<Rightarrow>
                    \<lparr>s_status = Error, s_text = None,
                     s_error = Some (''API error: '' @ string_of_nat (http_status response)
                                     @ '' '' @ statusText response @ '' - '' @ errorBody)\<rparr>)
          else (case body_json response of
                  Inl x \<Rightarrow>
                    \<lparr>s_status = Error, s_text = None,
                     s_error = Some (case x of JsError m \<Rightarrow> m
                                     | JsOther \<Rightarrow> ''Failed to check status'')\<rparr>
                | Inr data \<Rightarrow>
                    \<lparr>s_status = mapStatus (a_status data),
                     s_text = (case a_utterances data of
                                 Some (u # us) \<Rightarrow>
                                   if a_speaker_labels data = Some True
                                   then Some (formatUtterances (u # us)) else a_text data
                               | _ \<Rightarrow> a_text data),
                     s_error = a_error data\<rparr>))"

text \<open>
  The result of the \<open>k\<close>-th poll sent from the world \<open>w\<close> on (requests are answered by
  their position in the request log).
\<close>

definition poll_reply :: "network \<Rightarrow> string \<Rightarrow> string \<Rightarrow> world \<Rightarrow> nat \<Rightarrow> TranscriptionStatusResult" where
  "poll_reply net apiKey j w k =
     status_of_reply (transcript_endpoint net (length (fetches w) + k) (GetTranscript apiKey j))"

text \<open>A poll result ends the polling loop when its status is completed or error.\<close>

definition terminal :: "TranscriptionStatusResult \<Rightarrow> bool" where
  "terminal st \<longleftrightarrow> s_status st = Completed \<or> s_status st = Error"

text \<open>
  The merge of a poll result \<open>st\<close>, received at time \<open>d\<close>, into a transcription \<open>t\<close>:
  status and error are those of the poll result; the text is the text of the poll result
  when there is one and it is not empty, and the text of \<open>t\<close> otherwise; completedAt is
  \<open>d\<close> when the status is completed and unset otherwise; service, job id and startedAt
  are those of \<open>t\<close>.
\<close>

definition merged_job :: "TranscriptionData \<Rightarrow> TranscriptionStatusResult \<Rightarrow> int \<Rightarrow> TranscriptionData" where
  "merged_job t st d =
     \<lparr>status = s_status st,
      text_t = (case s_text st of None \<Rightarrow> text_t t | Some [] \<Rightarrow> text_t t | Some (c # cs) \<Rightarrow> Some (c # cs)),
      error = s_error st,
      service = service t,
      jobId = jobId t,
      startedAt = startedAt t,
      completedAt = (if s_status st = Completed then Some d else None)\<rparr>"

text \<open>
  The two shapes of a write of the polling loop and of \<^verbatim>\<open>checkStatus\<close>, relative to the
  transcription \<open>t\<close> of the recording passed in: \<open>t\<close> with status, text, error and
  completedAt taken from a poll result, or \<open>t\<close> marked as an error.
\<close>

definition poll_write :: "TranscriptionData \<Rightarrow> TranscriptionData \<Rightarrow> bool" where
  "poll_write t t' \<longleftrightarrow>
     (\<exists>(st::TranscriptionStatusResult) d.
         t' = t\<lparr>status := s_status st, text_t := js_or (s_text st) (text_t t),
                error := s_error st,
                completedAt := (if s_status st = Completed then Some d else None)\<rparr>)
     \<or> (\<exists>msg. t' = t\<lparr>status := Error, error := Some msg\<rparr>)"

text \<open>
  What the bulk clear has done to the record stored under id \<open>i\<close> once it has gone
  through the list \<open>rs\<close>: the record carries the cleared job of the first in-progress
  element of \<open>rs\<close> with this id, if there is one.
\<close>

definition clear_with :: "Recording list \<Rightarrow> string \<Rightarrow> Recording \<Rightarrow> Recording" where
  "clear_with rs i x =
     (case find (\<lambda>r. id_r r = i \<and> in_progress r) rs of
        None \<Rightarrow> x
      | Some r \<Rightarrow> x\<lparr>transcription := transcription (cleared_by_user r)\<rparr>)"

section \<open>Example inputs\<close>

definition example_recording :: Recording where
  "example_recording =
     \<lparr>id_r = ''rec-1'', filename = ''recording.webm'',
      blob = \<lparr>blob_type = ''audio/webm'', blob_bytes = [1, 2, 3]\<rparr>,
      mimeType = ''audio/webm'', size_r = 3, duration = 10, createdAt = 0,
      isDownloaded = False, recordingMode = AudioOnly, liveTranscription = None,
      transcription = None\<rparr>"

definition example_settings :: TranscriptionSettings where
  "example_settings = \<lparr>enabled = True, settings_service = ''assemblyai'', assemblyAIKey = ''key''\<rparr>"

text \<open>One new recording, no job yet.\<close>

definition example_world :: world where
  "example_world =
     \<lparr>settings = example_settings, db = [''rec-1'' \<mapsto> example_recording],
      recordings = [example_recording], now = 1000000, fetches = [], writes = [], sleeps = []\<rparr>"

text \<open>A network on which every request rejects.\<close>

definition offline :: network where
  "offline =
     \<lparr>upload_endpoint = (\<lambda>n req. FetchRejects (JsError ''Failed to fetch'')),
      transcript_endpoint = (\<lambda>n req. FetchRejects (JsError ''Failed to fetch'')),
      latency = (\<lambda>n. 0)\<rparr>"

text \<open>A provider that refuses the API key: every request is answered with status 401.\<close>

definition unauthorized :: network where
  "unauthorized =
     \<lparr>upload_endpoint = (\<lambda>n req. FetchResolves \<lparr>ok = False, http_status = 401,
          statusText = ''Unauthorized'', body_text = Inr ''bad key'',
          body_json = Inl (JsError ''Unexpected token'')\<rparr>),
      transcript_endpoint = (\<lambda>n req. FetchResolves \<lparr>ok = False, http_status = 401,
          statusText = ''Unauthorized'', body_text = Inr ''bad key'',
          body_json = Inl (JsError ''Unexpected token'')\<rparr>),
      latency = (\<lambda>n. 100)\<rparr>"

text \<open>An ok response of the transcript endpoints with the given provider status and text.\<close>

definition example_reply :: "string \<Rightarrow> string option \<Rightarrow> AssemblyAITranscriptResponse fetch_result" where
  "example_reply st txt =
     FetchResolves \<lparr>ok = True, http_status = 200, statusText = ''OK'', body_text = Inr [],
       body_json = Inr \<lparr>a_id = ''j1'', a_status = st, a_text = txt, a_error = None,
                        a_utterances = None, a_speaker_labels = None\<rparr>\<rparr>"

text \<open>A provider whose upload succeeds and whose \<open>n\<close>-th answer on the transcript
  endpoints is given.\<close>

definition example_net :: "(nat \<Rightarrow> AssemblyAITranscriptResponse fetch_result) \<Rightarrow> network" where
  "example_net replies =
     \<lparr>upload_endpoint = (\<lambda>n req. FetchResolves \<lparr>ok = True, http_status = 200, statusText = ''OK'',
          body_text = Inr [], body_json = Inr \<lparr>upload_url = ''https://cdn.example/upload/1''\<rparr>\<rparr>),
      transcript_endpoint = (\<lambda>n req. replies n),
      latency = (\<lambda>n. 100)\<rparr>"

definition always_processing :: network where
  "always_processing = example_net (\<lambda>n. example_reply ''processing'' None)"

text \<open>The first poll reports processing together with a text, the later ones completed
  without a text.\<close>

definition partial_then_done :: network where
  "partial_then_done =
     example_net (\<lambda>n. if n = 0 then example_reply ''processing'' (Some ''hello'')
                       else example_reply ''completed'' None)"

text \<open>Upload and submission succeed (requests 0 and 1), the first poll reports completed.\<close>

definition completes :: network where
  "completes =
     example_net (\<lambda>n. if n < 2 then example_reply ''queued'' None
                       else example_reply ''completed'' (Some ''hello''))"

definition example_job :: TranscriptionData where
  "example_job =
     \<lparr>status = Processing, text_t = None, error = None, service = ''AssemblyAI'',
      jobId = Some ''j1'', startedAt = Some 1000000, completedAt = None\<rparr>"

definition processing_recording :: Recording where
  "processing_recording = example_recording\<lparr>transcription := Some example_job\<rparr>"

text \<open>The job of the stored recording is processing; it started eleven minutes ago.\<close>

definition processing_world :: world where
  "processing_world =
     \<lparr>settings = example_settings, db = [''rec-1'' \<mapsto> processing_recording],
      recordings = [processing_recording], now = 1660000, fetches = [], writes = [], sleeps = []\<rparr>"

text \<open>
  The stored recording after a retry: its job is a new one (\<open>j2\<close>), while a polling loop
  started for the job \<open>j1\<close> still holds \<^const>\<open>processing_recording\<close>.
\<close>

definition retried_recording :: Recording where
  "retried_recording =
     example_recording\<lparr>transcription :=
       Some (example_job\<lparr>jobId := Some ''j2'', startedAt := Some 1650000\<rparr>)\<rparr>"

definition retried_world :: world where
  "retried_world =
     processing_world\<lparr>db := [''rec-1'' \<mapsto> retried_recording], recordings := [retried_recording]\<rparr>"

text \<open>The recording as \<^verbatim>\<open>transcribe\<close> stores it on the network \<^const>\<open>completes\<close>.\<close>

definition submitted_recording :: Recording where
  "submitted_recording =
     example_recording\<lparr>transcription :=
       Some \<lparr>status = Processing, text_t = None, error = None, service = ''AssemblyAI'',
             jobId = Some ''j1'', startedAt = Some 1000200, completedAt = None\<rparr>\<rparr>"

definition done_recording :: Recording where
  "done_recording =
     example_recording\<lparr>id_r := ''rec-2'', transcription :=
       Some \<lparr>status = Completed, text_t = Some ''hello'', error = None, service = ''AssemblyAI'',
             jobId = Some ''j0'', startedAt = Some 1000, completedAt = Some 2000\<rparr>\<rparr>"

text \<open>Three stored recordings: one in progress, one completed, one without a job.\<close>

definition library_world :: world where
  "library_world =
     \<lparr>settings = example_settings,
      db = [''rec-1'' \<mapsto> processing_recording, ''rec-2'' \<mapsto> done_recording,
            ''rec-3'' \<mapsto> example_recording\<lparr>id_r := ''rec-3''\<rparr>],
      recordings = [processing_recording, done_recording, example_recording\<lparr>id_r := ''rec-3''\<rparr>],
      now = 1660000, fetches = [], writes = [], sleeps = []\<rparr>"

text \<open>Two utterances, the later one first and the earlier one second.\<close>

definition utterance_late :: AssemblyAIUtterance where
  "utterance_late =
     \<lparr>u_speaker = ''B'', u_text = ''second'',
      u_start = Abs_safe_integer 5000, u_end = Abs_safe_integer 6000\<rparr>"

definition utterance_early :: AssemblyAIUtterance where
  "utterance_early =
     \<lparr>u_speaker = ''A'', u_text = ''first'',
      u_start = Abs_safe_integer 0, u_end = Abs_safe_integer 4000\<rparr>"

section \<open>Timestamps\<close>

lemma smod_nonneg: "0 \<le> k \<Longrightarrow> 0 < l \<Longrightarrow> (k::int) smod l = k mod l"
  by (cases "k = 0") (simp_all add: signed_modulo_int_def)

lemma string_of_nat_small: "n < 10 \<Longrightarrow> string_of_nat n = [digit_char n]"
  by (subst string_of_nat.simps) simp

lemma string_of_nat_big:
  "\<not> n < 10 \<Longrightarrow> string_of_nat n = string_of_nat (n div 10) @ [digit_char (n mod 10)]"
  by (subst string_of_nat.simps) simp

lemma padStart2_two_digits: "n < 100 \<Longrightarrow> padStart2 (string_of_nat n) = two_digits n"
proof (cases "n < 10")
  case True
  then show ?thesis
    by (simp add: string_of_nat_small padStart2_def two_digits_def digit_char_def)
next
  case False
  assume "n < 100"
  with False have "n div 10 < 10" by simp
  with False show ?thesis
    by (simp add: string_of_nat_big string_of_nat_small padStart2_def two_digits_def)
qed

lemma mod_3600_div_60: "(s::nat) mod 3600 div 60 = s div 60 mod 60"
proof -
  have "s mod (60 * 60) = 60 * (s div 60 mod 60) + s mod 60" by (rule mod_mult2_eq)
  then have "s mod 3600 div 60 = (s mod 60 + (s div 60 mod 60) * 60) div 60" by (simp add: ac_simps)
  also have "\<dots> = s div 60 mod 60" by simp
  finally show ?thesis .
qed

lemma nat_hours: "nat (int s div 3600) = s div 3600"
  by (simp add: nat_div_distrib)

lemma nat_minutes: "nat (int s mod 3600 div 60) = s div 60 mod 60"
proof -
  have "int s mod 3600 div 60 = int (s mod 3600 div 60)" by (simp add: zdiv_int zmod_int)
  then show ?thesis by (simp add: mod_3600_div_60)
qed

lemma nat_seconds: "nat (int s mod 60) = s mod 60"
  by (simp add: nat_mod_distrib)

lemma hours_positive: "0 < int s div 3600 \<longleftrightarrow> 3600 \<le> s"
  by (simp add: pos_imp_zdiv_pos_iff)

lemma Rep_Abs_safe_integer [simp]:
  "- (2 ^ 53) < i \<Longrightarrow> i < 2 ^ 53 \<Longrightarrow> Rep_safe_integer (Abs_safe_integer i) = i"
  by (simp add: Abs_safe_integer_inverse)

lemma formatTimestamp_nonneg:
  assumes "0 \<le> Rep_safe_integer ms"
  shows "formatTimestamp ms = clock_text (nat (Rep_safe_integer ms div 1000))"
proof -
  define t where "t = Rep_safe_integer ms div 1000"
  have t0: "0 \<le> t" using assms by (simp add: t_def pos_imp_zdiv_nonneg_iff)
  define s where "s = nat t"
  have ts: "t = int s" using t0 by (simp add: s_def)
  have m1: "t smod 3600 = t mod 3600" and m2: "t smod 60 = t mod 60"
    using t0 by (simp_all add: smod_nonneg)
  have nn: "\<not> t div 3600 < 0" "\<not> t mod 3600 div 60 < 0" "\<not> t mod 60 < 0"
    using t0 by (simp_all add: pos_imp_zdiv_nonneg_iff)
  have lt: "s div 60 mod 60 < 100" "s mod 60 < 100"
    using mod_less_divisor [of 60 "s div 60"] mod_less_divisor [of 60 s] by simp_all
  have low: "\<not> 3600 \<le> s \<Longrightarrow> s div 60 mod 60 = s div 60" by simp
  have st: "nat (Rep_safe_integer ms div 1000) = s" by (simp add: s_def t_def)
  have "formatTimestamp ms =
     (if 0 < t div 3600
      then string_of_int (t div 3600) @ '':'' @ padStart2 (string_of_int (t mod 3600 div 60)) @ '':''
              @ padStart2 (string_of_int (t mod 60))
      else string_of_int (t mod 3600 div 60) @ '':'' @ padStart2 (string_of_int (t mod 60)))"
    by (simp add: formatTimestamp_def Let_def t_def [symmetric] m1 m2)
  also have "\<dots> = (if 3600 \<le> s
         then string_of_nat (s div 3600) @ '':'' @ two_digits (s div 60 mod 60) @ '':''
              @ two_digits (s mod 60)
         else string_of_nat (s div 60) @ '':'' @ two_digits (s mod 60))"
  proof -
    have i1: "string_of_int (t div 3600) = string_of_nat (s div 3600)"
      using nn(1) by (simp only: string_of_int_def if_False ts nat_hours)
    have i2: "string_of_int (t mod 3600 div 60) = string_of_nat (s div 60 mod 60)"
      using nn(2) by (simp only: string_of_int_def if_False ts nat_minutes)
    have i3: "string_of_int (t mod 60) = string_of_nat (s mod 60)"
      using nn(3) by (simp only: string_of_int_def if_False ts nat_seconds)
    have c: "0 < t div 3600 \<longleftrightarrow> 3600 \<le> s"
      by (simp only: ts hours_positive)
    show ?thesis
      by (simp only: i1 i2 i3 c padStart2_two_digits [OF lt(1)] padStart2_two_digits [OF lt(2)])
        (simp add: low)
  qed
  finally show ?thesis by (simp add: st clock_text_def)
qed

lemmas timestamp_eval = formatTimestamp_def string_of_int_def string_of_nat.simps padStart2_def
  digit_char_def Let_def

lemma formatTimestamp_examples:
  "formatTimestamp (Abs_safe_integer 0) = ''0:00''
   \<and> formatTimestamp (Abs_safe_integer 65000) = ''1:05''
   \<and> formatTimestamp (Abs_safe_integer 3661000) = ''1:01:01''"
  by (simp add: timestamp_eval)

lemma utterance_block_nonneg:
  "0 \<le> Rep_safe_integer (u_start u) \<Longrightarrow> 0 \<le> Rep_safe_integer (u_end u)
   \<Longrightarrow> utterance_block u = segment_text u"
  by (simp add: utterance_block_def segment_text_def whole_seconds_def formatTimestamp_nonneg)

lemma formatUtterances_nonneg:
  assumes "\<forall>u \<in> set us. 0 \<le> Rep_safe_integer (u_start u) \<and> 0 \<le> Rep_safe_integer (u_end u)"
  shows "formatUtterances us = join newline (map segment_text us)"
proof -
  have "map utterance_block us = map segment_text us"
    using assms by (intro map_cong) (simp_all add: utterance_block_nonneg)
  then show ?thesis unfolding formatUtterances_def by (rule arg_cong)
qed

lemma formatUtterances_sorted:
  assumes "\<forall>u \<in> set us. 0 \<le> Rep_safe_integer (u_start u) \<and> 0 \<le> Rep_safe_integer (u_end u)"
    and "sorted (map (\<lambda>u. Rep_safe_integer (u_start u)) us)"
  shows "formatUtterances us = formatUtterances_by_start us"
  using formatUtterances_nonneg [OF assms(1)] assms(2)
  by (simp add: formatUtterances_by_start_def sort_key_id_if_sorted)

lemma formatUtterances_Cons:
  "formatUtterances (u # us) =
     (if us = [] then utterance_block u else utterance_block u @ newline @ formatUtterances us)"
  by (cases us) (simp_all add: formatUtterances_def)

section \<open>Properties of the adapter, the store and the manager\<close>

lemmas example_defs = example_recording_def example_settings_def example_world_def offline_def
  unauthorized_def
  example_reply_def example_net_def always_processing_def partial_then_done_def completes_def
  example_job_def processing_recording_def processing_world_def submitted_recording_def
  done_recording_def library_world_def retried_recording_def retried_world_def

lemmas monad_defs = and_then_def try_catch_def return_js_def new_Date_def

subsection \<open>The adapter\<close>

lemma adapter_transcribe_cases:
  "\<exists>result w'. adapter_transcribe net apiKey audioBlob options w = (Returned result, w')
     \<and> (case submit_result net apiKey audioBlob options w of
           Inl x \<Rightarrow>
             result = \<lparr>r_jobId = None, r_status = Error, r_text = None,
                        r_error = Some (case x of JsError m \<Rightarrow> m
                                        | JsOther \<Rightarrow> ''Transcription failed'')\<rparr>
         | Inr transcriptId \<Rightarrow>
             result = \<lparr>r_jobId = Some transcriptId, r_status = Processing, r_text = None,
                        r_error = None\<rparr>)"
  by (auto simp: adapter_transcribe_def submit_result_def monad_defs message_or_def
      split: prod.splits outcome.splits js_exn.splits)

lemma uploadFile_eq:
  "uploadFile net apiKey b w =
     ((case upload_endpoint net (length (fetches w))
             (PostUpload apiKey
                (if blob_type b \<noteq> [] then blob_type b else ''application/octet-stream'') b) of
         FetchRejects x \<Rightarrow> Thrown x
       | FetchResolves response \<Rightarrow>
           if \<not> ok response
           then Thrown (JsError (''Upload failed: '' @ string_of_nat (http_status response) @ '' ''
                                 @ statusText response))
           else (case body_json response of
                   Inl x \<Rightarrow> Thrown x
                 | Inr data \<Rightarrow> Returned (upload_url data))),
      w\<lparr>now := now w + int (latency net (length (fetches w))),
        fetches := fetches w @ [PostUpload apiKey
                (if blob_type b \<noteq> [] then blob_type b else ''application/octet-stream'') b]\<rparr>)"
  by (simp add: uploadFile_def fetch_upload_def split: fetch_result.splits sum.splits)

lemma createTranscript_eq:
  "createTranscript net apiKey audioUrl options w =
     ((case transcript_endpoint net (length (fetches w))
             (PostTranscript apiKey (transcript_body audioUrl options)) of
         FetchRejects x \<Rightarrow> Thrown x
       | FetchResolves response \<Rightarrow>
           if \<not> ok response
           then (case body_text response of
                   Inl x \<Rightarrow> Thrown x
                 | Inr errorBody \<Rightarrow>
                     Thrown (JsError (''Transcription request failed: ''
                                      @ string_of_nat (http_status response) @ '' ''
                                      @ statusText response @ '' - '' @ errorBody)))
           else (case body_json response of
                   Inl x \<Rightarrow> Thrown x
                 | Inr data \<Rightarrow> Returned (a_id data))),
      w\<lparr>now := now w + int (latency net (length (fetches w))),
        fetches := fetches w @ [PostTranscript apiKey (transcript_body audioUrl options)]\<rparr>)"
  by (simp add: createTranscript_def fetch_transcript_def split: fetch_result.splits sum.splits)

lemma submit_result_replies:
  "submit_result net apiKey audioBlob options w =
     (case upload_endpoint net (length (fetches w))
             (PostUpload apiKey
                (if blob_type audioBlob \<noteq> [] then blob_type audioBlob
                 else ''application/octet-stream'') audioBlob) of
        FetchRejects x \<Rightarrow> Inl x
      | FetchResolves response \<Rightarrow>
          if \<not> ok response
          then Inl (JsError (''Upload failed: '' @ string_of_nat (http_status response) @ '' ''
                             @ statusText response))
          else (case body_json response of
                  Inl x \<Rightarrow> Inl x
                | Inr uploaded \<Rightarrow>
                    (case transcript_endpoint net (Suc (length (fetches w)))
                            (PostTranscript apiKey (transcript_body (upload_url uploaded) options)) of
                       FetchRejects x \<Rightarrow> Inl x
                     | FetchResolves response2 \<Rightarrow>
                         if \<not> ok response2
                         then (case body_text response2 of
                                 Inl x \<Rightarrow> Inl x
                               | Inr errorBody \<Rightarrow>
                                   Inl (JsError (''Transcription request failed: ''
                                          @ string_of_nat (http_status response2) @ '' ''
                                          @ statusText response2 @ '' - '' @ errorBody)))
                         else (case body_json response2 of
                                 Inl x \<Rightarrow> Inl x
                               | Inr data \<Rightarrow> Inr (a_id data)))))"
proof (cases "upload_endpoint net (length (fetches w))
             (PostUpload apiKey
                (if blob_type audioBlob \<noteq> [] then blob_type audioBlob
                 else ''application/octet-stream'') audioBlob)")
  case (FetchRejects x)
  then show ?thesis by (simp add: submit_result_def uploadFile_eq)
next
  case up: (FetchResolves response)
  show ?thesis
  proof (cases "ok response")
    case False
    with up show ?thesis by (simp add: submit_result_def uploadFile_eq)
  next
    case True
    show ?thesis
    proof (cases "body_json response")
      case (Inl x)
      with up True show ?thesis by (simp add: submit_result_def uploadFile_eq)
    next
      case (Inr uploaded)
      with up True show ?thesis
        by (simp add: submit_result_def uploadFile_eq createTranscript_eq
            split: fetch_result.splits sum.splits)
    qed
  qed
qed

lemma uploadFile_frame:
  "uploadFile net apiKey b w = (out, w') \<Longrightarrow>
     db w' = db w \<and> recordings w' = recordings w \<and> writes w' = writes w
     \<and> settings w' = settings w \<and> sleeps w' = sleeps w
     \<and> length (fetches w') = Suc (length (fetches w))"
  by (auto simp: uploadFile_def fetch_upload_def split: fetch_result.splits if_splits sum.splits)

lemma createTranscript_frame:
  "createTranscript net apiKey url options w = (out, w') \<Longrightarrow>
     db w' = db w \<and> recordings w' = recordings w \<and> writes w' = writes w
     \<and> settings w' = settings w \<and> sleeps w' = sleeps w
     \<and> length (fetches w') = Suc (length (fetches w))"
  by (auto simp: createTranscript_def fetch_transcript_def split: fetch_result.splits if_splits sum.splits)

lemma adapter_transcribe_frame:
  assumes "adapter_transcribe net apiKey b options w = (out, w')"
  shows "db w' = db w \<and> recordings w' = recordings w \<and> writes w' = writes w
     \<and> settings w' = settings w \<and> sleeps w' = sleeps w"
proof (cases "uploadFile net apiKey b w")
  case (Pair o1 w1)
  note u = uploadFile_frame [OF Pair]
  show ?thesis
  proof (cases o1)
    case (Thrown x)
    with assms Pair u show ?thesis by (auto simp: adapter_transcribe_def monad_defs)
  next
    case (Returned url)
    obtain o2 w2 where c: "createTranscript net apiKey url options w1 = (o2, w2)" by fastforce
    note cf = createTranscript_frame [OF c]
    from assms Pair Returned c u cf show ?thesis
      by (cases o2) (auto simp: adapter_transcribe_def monad_defs)
  qed
qed

lemma uploadFile_fst_cong:
  "fetches w' = fetches w \<Longrightarrow> fst (uploadFile net apiKey b w') = fst (uploadFile net apiKey b w)"
  by (auto simp: uploadFile_def fetch_upload_def split: fetch_result.splits if_splits sum.splits)

lemma createTranscript_fst_cong:
  "length (fetches w') = length (fetches w) \<Longrightarrow>
     fst (createTranscript net apiKey url options w') = fst (createTranscript net apiKey url options w)"
  by (auto simp: createTranscript_def fetch_transcript_def split: fetch_result.splits if_splits sum.splits)

lemma submit_result_cong:
  assumes "fetches w' = fetches w"
  shows "submit_result net apiKey b options w' = submit_result net apiKey b options w"
  unfolding submit_result_replies assms by (rule refl)

subsection \<open>The store\<close>

lemma recordingsUpdate_Some:
  "db w i = Some r \<Longrightarrow>
   recordingsUpdate i t w =
     (Returned (),
      w\<lparr>db := (db w)(i \<mapsto> r\<lparr>transcription := Some t\<rparr>),
        recordings := map (\<lambda>r. if id_r r = i then r\<lparr>transcription := Some t\<rparr> else r) (recordings w),
        writes := writes w @ [(i, t)]\<rparr>)"
  by (simp add: recordingsUpdate_def)


subsection \<open>Polls\<close>

lemma adapter_checkStatus_eq:
  "\<exists>st. adapter_checkStatus net apiKey j w =
      (Returned st, w\<lparr>now := now w + int (latency net (length (fetches w))),
                      fetches := fetches w @ [GetTranscript apiKey j]\<rparr>)
     \<and> (nonterminal_reply (transcript_endpoint net (length (fetches w)) (GetTranscript apiKey j))
          \<longleftrightarrow> s_status st = Processing \<or> s_status st = Pending)"
  by (auto simp: adapter_checkStatus_def nonterminal_reply_def fetch_transcript_def monad_defs
      status_result_def Let_def
      split: fetch_result.splits sum.splits)

lemma status_nonterminal_iff:
  "(s = Processing \<or> s = Pending) \<longleftrightarrow> \<not> (s = Completed \<or> s = Error)"
  by (cases s) simp_all

lemma poll_attempt_stored:
  assumes "db w (id_r r) = Some stored"
  shows "\<exists>(st::TranscriptionStatusResult) d w'.
     poll_attempt net apiKey r t j w = (Returned (s_status st = Completed \<or> s_status st = Error), w')
     \<and> (nonterminal_reply (transcript_endpoint net (length (fetches w)) (GetTranscript apiKey j))
          \<longleftrightarrow> \<not> (s_status st = Completed \<or> s_status st = Error))
     \<and> fetches w' = fetches w @ [GetTranscript apiKey j]
     \<and> writes w' = writes w @
          [(id_r r, t\<lparr>status := s_status st, text_t := js_or (s_text st) (text_t t),
                      error := s_error st,
                      completedAt := (if s_status st = Completed then Some d else None)\<rparr>)]
     \<and> db w' = (db w)(id_r r \<mapsto> stored\<lparr>transcription :=
            Some (t\<lparr>status := s_status st, text_t := js_or (s_text st) (text_t t),
                    error := s_error st,
                    completedAt := (if s_status st = Completed then Some d else None)\<rparr>)\<rparr>)
     \<and> sleeps w' = (if s_status st = Completed \<or> s_status st = Error then sleeps w
                     else sleeps w @ [5000])
     \<and> settings w' = settings w"
proof -
  obtain st where c: "adapter_checkStatus net apiKey j w =
      (Returned st, w\<lparr>now := now w + int (latency net (length (fetches w))),
                      fetches := fetches w @ [GetTranscript apiKey j]\<rparr>)"
    and n: "nonterminal_reply (transcript_endpoint net (length (fetches w)) (GetTranscript apiKey j))
          \<longleftrightarrow> s_status st = Processing \<or> s_status st = Pending"
    using adapter_checkStatus_eq [of net apiKey j w] by blast
  define d where "d = now w + int (latency net (length (fetches w)))"
  define w' where "w' = snd (poll_attempt net apiKey r t j w)"
  have 1: "poll_attempt net apiKey r t j w = (Returned (s_status st = Completed \<or> s_status st = Error), w')"
    unfolding w'_def using assms c
    by (cases "s_status st") (simp_all add: poll_attempt_def monad_defs recordingsUpdate_def sleep_def)
  have 2: "fetches w' = fetches w @ [GetTranscript apiKey j]"
    and 3: "writes w' = writes w @
          [(id_r r, t\<lparr>status := s_status st, text_t := js_or (s_text st) (text_t t),
                      error := s_error st,
                      completedAt := (if s_status st = Completed then Some d else None)\<rparr>)]"
    and 4: "db w' = (db w)(id_r r \<mapsto> stored\<lparr>transcription :=
            Some (t\<lparr>status := s_status st, text_t := js_or (s_text st) (text_t t),
                    error := s_error st,
                    completedAt := (if s_status st = Completed then Some d else None)\<rparr>)\<rparr>)"
    and 5: "sleeps w' = (if s_status st = Completed \<or> s_status st = Error then sleeps w
                     else sleeps w @ [5000])"
    and 6: "settings w' = settings w"
    unfolding w'_def d_def using assms c
    by (cases "s_status st"; simp add: poll_attempt_def monad_defs recordingsUpdate_def sleep_def)+
  from n have 7: "nonterminal_reply (transcript_endpoint net (length (fetches w)) (GetTranscript apiKey j))
          \<longleftrightarrow> \<not> (s_status st = Completed \<or> s_status st = Error)"
    by (simp add: status_nonterminal_iff)
  from 1 2 3 4 5 6 7 show ?thesis by blast
qed

lemma poll_loop_timeout:
  assumes "n = maxAttempts - attempts" "attempts \<le> maxAttempts"
    and "db w (id_r r) = Some stored"
    and "\<forall>k < n. nonterminal_reply
            (transcript_endpoint net (length (fetches w) + k) (GetTranscript apiKey j))"
  shows "\<exists>w'. poll_loop net apiKey r t j attempts w = (Returned (), w')
     \<and> fetches w' = fetches w @ replicate n (GetTranscript apiKey j)
     \<and> sleeps w' = sleeps w @ replicate n 5000
     \<and> last (writes w') =
          (id_r r, t\<lparr>status := Error, error := Some ''Transcription polling timed out''\<rparr>)
     \<and> db w' (id_r r) = Some (stored\<lparr>transcription :=
          Some (t\<lparr>status := Error, error := Some ''Transcription polling timed out''\<rparr>)\<rparr>)"
  using assms
proof (induction n arbitrary: attempts w stored)
  case 0
  then have "\<not> attempts < maxAttempts" by simp
  with "0.prems"(3) show ?case
    by (subst poll_loop.simps) (simp add: recordingsUpdate_def)
next
  case (Suc n)
  then have lt: "attempts < maxAttempts" by simp
  from Suc.prems(4) have nt: "nonterminal_reply
      (transcript_endpoint net (length (fetches w)) (GetTranscript apiKey j))"
    by (metis add.right_neutral zero_less_Suc)
  obtain st :: TranscriptionStatusResult and d w1 where
    pa: "poll_attempt net apiKey r t j w = (Returned (s_status st = Completed \<or> s_status st = Error), w1)"
    and cont: "\<not> (s_status st = Completed \<or> s_status st = Error)"
    and f1: "fetches w1 = fetches w @ [GetTranscript apiKey j]"
    and d1: "db w1 = (db w)(id_r r \<mapsto> stored\<lparr>transcription :=
            Some (t\<lparr>status := s_status st, text_t := js_or (s_text st) (text_t t),
                    error := s_error st,
                    completedAt := (if s_status st = Completed then Some d else None)\<rparr>)\<rparr>)"
    and s1: "sleeps w1 = (if s_status st = Completed \<or> s_status st = Error then sleeps w
                     else sleeps w @ [5000])"
    using poll_attempt_stored [OF Suc.prems(3), of net apiKey t j] nt by blast
  have step: "poll_loop net apiKey r t j attempts w = poll_loop net apiKey r t j (Suc attempts) w1"
    using lt pa cont by (subst poll_loop.simps) (simp add: monad_defs)
  have n': "n = maxAttempts - Suc attempts" "Suc attempts \<le> maxAttempts"
    using Suc.prems(1) lt by simp_all
  have st1: "db w1 (id_r r) = Some (stored\<lparr>transcription :=
            Some (t\<lparr>status := s_status st, text_t := js_or (s_text st) (text_t t),
                    error := s_error st,
                    completedAt := (if s_status st = Completed then Some d else None)\<rparr>)\<rparr>)"
    by (simp add: d1)
  have nts: "\<forall>k < n. nonterminal_reply
            (transcript_endpoint net (length (fetches w1) + k) (GetTranscript apiKey j))"
  proof (intro allI impI)
    fix k assume "k < n"
    then have "Suc k < Suc n" by simp
    with Suc.prems(4) have "nonterminal_reply
            (transcript_endpoint net (length (fetches w) + Suc k) (GetTranscript apiKey j))"
      by blast
    then show "nonterminal_reply
            (transcript_endpoint net (length (fetches w1) + k) (GetTranscript apiKey j))"
      by (simp add: f1)
  qed
  from Suc.IH [OF n' st1 nts] obtain w' where
    "poll_loop net apiKey r t j (Suc attempts) w1 = (Returned (), w')"
    "fetches w' = fetches w1 @ replicate n (GetTranscript apiKey j)"
    "sleeps w' = sleeps w1 @ replicate n 5000"
    "last (writes w') =
          (id_r r, t\<lparr>status := Error, error := Some ''Transcription polling timed out''\<rparr>)"
    "db w' (id_r r) = Some (stored\<lparr>transcription :=
          Some (t\<lparr>status := Error, error := Some ''Transcription polling timed out''\<rparr>)\<rparr>)"
    by auto
  with step f1 s1 cont show ?case by (simp add: replicate_append_same)
qed

subsection \<open>The writes of a poll\<close>

lemma adapter_checkStatus_reply:
  "adapter_checkStatus net apiKey j w =
      (Returned (status_of_reply (transcript_endpoint net (length (fetches w)) (GetTranscript apiKey j))),
       w\<lparr>now := now w + int (latency net (length (fetches w))),
         fetches := fetches w @ [GetTranscript apiKey j]\<rparr>)"
  by (auto simp: adapter_checkStatus_def status_of_reply_def fetch_transcript_def monad_defs
      status_result_def Let_def message_or_def
      split: fetch_result.splits sum.splits js_exn.splits option.splits list.splits)

lemma merged_job_eq:
  "t\<lparr>status := s_status st, text_t := js_or (s_text st) (text_t t), error := s_error st,
      completedAt := (if s_status st = Completed then Some d else None)\<rparr> = merged_job t st d"
  by (cases t) (auto simp: merged_job_def js_or_def truthy_def split: option.splits list.splits)

lemma merged_job_clock:
  "s_status st \<noteq> Completed \<Longrightarrow> merged_job t st d = merged_job t st d'"
  by (simp add: merged_job_def)

lemma terminal_cases: "\<not> terminal st \<Longrightarrow> s_status st \<noteq> Completed"
  by (simp add: terminal_def)

lemma poll_attempt_reply:
  assumes "db w (id_r r) = Some stored"
  shows "\<exists>w'.
     poll_attempt net apiKey r t j w = (Returned (terminal (poll_reply net apiKey j w 0)), w')
     \<and> fetches w' = fetches w @ [GetTranscript apiKey j]
     \<and> writes w' = writes w @
          [(id_r r, merged_job t (poll_reply net apiKey j w 0)
                      (now w + int (latency net (length (fetches w)))))]
     \<and> db w' = (db w)(id_r r \<mapsto> stored\<lparr>transcription :=
            Some (merged_job t (poll_reply net apiKey j w 0)
                      (now w + int (latency net (length (fetches w)))))\<rparr>)
     \<and> (terminal (poll_reply net apiKey j w 0)
          \<longrightarrow> now w' = now w + int (latency net (length (fetches w))))"
proof -
  define st where "st = poll_reply net apiKey j w 0"
  have c: "adapter_checkStatus net apiKey j w =
      (Returned st, w\<lparr>now := now w + int (latency net (length (fetches w))),
                      fetches := fetches w @ [GetTranscript apiKey j]\<rparr>)"
    unfolding st_def poll_reply_def using adapter_checkStatus_reply [of net apiKey j w] by simp
  define w' where "w' = snd (poll_attempt net apiKey r t j w)"
  have 1: "poll_attempt net apiKey r t j w = (Returned (terminal st), w')"
    unfolding w'_def terminal_def using assms c
    by (cases "s_status st") (simp_all add: poll_attempt_def monad_defs recordingsUpdate_def sleep_def)
  have 2: "fetches w' = fetches w @ [GetTranscript apiKey j]"
    and 3: "writes w' = writes w @
          [(id_r r, merged_job t st (now w + int (latency net (length (fetches w)))))]"
    and 4: "db w' = (db w)(id_r r \<mapsto> stored\<lparr>transcription :=
            Some (merged_job t st (now w + int (latency net (length (fetches w)))))\<rparr>)"
    and 5: "terminal st \<longrightarrow> now w' = now w + int (latency net (length (fetches w)))"
    unfolding w'_def terminal_def merged_job_eq [symmetric] using assms c
    by (cases "s_status st"; simp add: poll_attempt_def monad_defs recordingsUpdate_def sleep_def)+
  from 1 2 3 4 5 show ?thesis unfolding st_def by blast
qed

lemma poll_reply_shift:
  "fetches w1 = fetches w @ [q] \<Longrightarrow> poll_reply net apiKey j w1 k = poll_reply net apiKey j w (Suc k)"
  by (simp add: poll_reply_def)

lemma poll_loop_writes:
  assumes "m = maxAttempts - a" "a \<le> maxAttempts" "db w (id_r r) = Some stored"
  shows "\<exists>n w'. poll_loop net apiKey r t j a w = (Returned (), w')
     \<and> n \<le> m
     \<and> fetches w' = fetches w @ replicate n (GetTranscript apiKey j)
     \<and> list_all (\<lambda>k. \<not> terminal (poll_reply net apiKey j w k)) [0..<n - 1]
     \<and> (0 < n \<and> terminal (poll_reply net apiKey j w (n - 1))
          \<and> writes w' = writes w @
               map (\<lambda>k. (id_r r, merged_job t (poll_reply net apiKey j w k) (now w'))) [0..<n]
        \<or> n = m \<and> list_all (\<lambda>k. \<not> terminal (poll_reply net apiKey j w k)) [0..<n]
          \<and> writes w' = writes w @
               map (\<lambda>k. (id_r r, merged_job t (poll_reply net apiKey j w k) (now w'))) [0..<n]
               @ [(id_r r, t\<lparr>status := Error, error := Some ''Transcription polling timed out''\<rparr>)])
     \<and> db w' = (db w)(id_r r \<mapsto> stored\<lparr>transcription := Some (snd (last (writes w')))\<rparr>)"
  using assms
proof (induction m arbitrary: a w stored)
  case 0
  then have "\<not> a < maxAttempts" by simp
  with "0.prems"(3) show ?case
    by (subst poll_loop.simps) (simp add: recordingsUpdate_def)
next
  case (Suc m)
  then have lt: "a < maxAttempts" by simp
  let ?d = "now w + int (latency net (length (fetches w)))"
  let ?st = "poll_reply net apiKey j w"
  from poll_attempt_reply [OF Suc.prems(3), of net apiKey t j]
  obtain w1 where
    pa: "poll_attempt net apiKey r t j w = (Returned (terminal (?st 0)), w1)"
    and f1: "fetches w1 = fetches w @ [GetTranscript apiKey j]"
    and wr1: "writes w1 = writes w @ [(id_r r, merged_job t (?st 0) ?d)]"
    and d1: "db w1 = (db w)(id_r r \<mapsto> stored\<lparr>transcription := Some (merged_job t (?st 0) ?d)\<rparr>)"
    and n1: "terminal (?st 0) \<longrightarrow> now w1 = ?d"
    by blast
  show ?case
  proof (cases "terminal (?st 0)")
    case True
    then have "poll_loop net apiKey r t j a w = (Returned (), w1)"
      using lt pa by (subst poll_loop.simps) (simp add: monad_defs)
    moreover from True n1 have "now w1 = ?d" by simp
    ultimately show ?thesis
      using True f1 wr1 d1
      by (intro exI [of _ 1] exI [of _ w1]) simp
  next
    case False
    then have step: "poll_loop net apiKey r t j a w = poll_loop net apiKey r t j (Suc a) w1"
      using lt pa by (subst poll_loop.simps) (simp add: monad_defs)
    have m': "m = maxAttempts - Suc a" "Suc a \<le> maxAttempts"
      using Suc.prems(1) lt by simp_all
    have st1: "db w1 (id_r r) = Some (stored\<lparr>transcription := Some (merged_job t (?st 0) ?d)\<rparr>)"
      by (simp add: d1)
    have sh: "poll_reply net apiKey j w1 k = ?st (Suc k)" for k
      using f1 by (rule poll_reply_shift)
    from Suc.IH [OF m' st1, unfolded sh] obtain n w' where
      run: "poll_loop net apiKey r t j (Suc a) w1 = (Returned (), w')"
      and le: "n \<le> m"
      and f': "fetches w' = fetches w1 @ replicate n (GetTranscript apiKey j)"
      and nt: "list_all (\<lambda>k. \<not> terminal (?st (Suc k))) [0..<n - 1]"
      and alt: "0 < n \<and> terminal (?st (Suc (n - 1)))
          \<and> writes w' = writes w1 @
               map (\<lambda>k. (id_r r, merged_job t (?st (Suc k)) (now w'))) [0..<n]
        \<or> n = m \<and> list_all (\<lambda>k. \<not> terminal (?st (Suc k))) [0..<n]
          \<and> writes w' = writes w1 @
               map (\<lambda>k. (id_r r, merged_job t (?st (Suc k)) (now w'))) [0..<n]
               @ [(id_r r, t\<lparr>status := Error, error := Some ''Transcription polling timed out''\<rparr>)]"
      and db': "db w' = (db w1)(id_r r \<mapsto> stored\<lparr>transcription := Some (merged_job t (?st 0) ?d)\<rparr>
                                         \<lparr>transcription := Some (snd (last (writes w')))\<rparr>)"
      by blast
    have clock: "merged_job t (?st 0) ?d = merged_job t (?st 0) (now w')"
      using False by (intro merged_job_clock terminal_cases)
    have head: "writes w1 @ map (\<lambda>k. (id_r r, merged_job t (?st (Suc k)) (now w'))) [0..<n]
        = writes w @ map (\<lambda>k. (id_r r, merged_job t (?st k) (now w'))) [0..<Suc n]"
      unfolding wr1 clock map_upt_Suc by simp
    have all: "list_all (\<lambda>k. \<not> terminal (?st k)) [0..<Suc n]"
      if "list_all (\<lambda>k. \<not> terminal (?st (Suc k))) [0..<n]" for n
      unfolding list_all_iff
    proof
      fix k assume "k \<in> set [0..<Suc n]"
      then have k: "k < Suc n" by auto
      show "\<not> terminal (?st k)"
      proof (cases k)
        case 0
        with False show ?thesis by simp
      next
        case (Suc k')
        with k have "k' \<in> set [0..<n]" by simp
        with that Suc show ?thesis unfolding list_all_iff by blast
      qed
    qed
    have 1: "poll_loop net apiKey r t j a w = (Returned (), w')" using step run by simp
    have 2: "Suc n \<le> Suc m" using le by simp
    have 3: "fetches w' = fetches w @ replicate (Suc n) (GetTranscript apiKey j)"
      using f' f1 by simp
    have 4: "list_all (\<lambda>k. \<not> terminal (?st k)) [0..<Suc n - 1]"
    proof (cases n)
      case 0
      then show ?thesis by simp
    next
      case (Suc n')
      with nt have "list_all (\<lambda>k. \<not> terminal (?st (Suc k))) [0..<n']" by simp
      from all [OF this] Suc show ?thesis by simp
    qed
    have 5: "0 < Suc n \<and> terminal (?st (Suc n - 1))
          \<and> writes w' = writes w @
               map (\<lambda>k. (id_r r, merged_job t (?st k) (now w'))) [0..<Suc n]
        \<or> Suc n = Suc m \<and> list_all (\<lambda>k. \<not> terminal (?st k)) [0..<Suc n]
          \<and> writes w' = writes w @
               map (\<lambda>k. (id_r r, merged_job t (?st k) (now w'))) [0..<Suc n]
               @ [(id_r r, t\<lparr>status := Error, error := Some ''Transcription polling timed out''\<rparr>)]"
      using alt
    proof
      assume a: "0 < n \<and> terminal (?st (Suc (n - 1)))
          \<and> writes w' = writes w1 @
               map (\<lambda>k. (id_r r, merged_job t (?st (Suc k)) (now w'))) [0..<n]"
      then have "Suc (n - 1) = n" by simp
      with a have "terminal (?st (Suc n - 1))" by simp
      moreover from a head have "writes w' = writes w @
               map (\<lambda>k. (id_r r, merged_job t (?st k) (now w'))) [0..<Suc n]" by simp
      ultimately show ?thesis by simp
    next
      assume b: "n = m \<and> list_all (\<lambda>k. \<not> terminal (?st (Suc k))) [0..<n]
          \<and> writes w' = writes w1 @
               map (\<lambda>k. (id_r r, merged_job t (?st (Suc k)) (now w'))) [0..<n]
               @ [(id_r r, t\<lparr>status := Error, error := Some ''Transcription polling timed out''\<rparr>)]"
      then have "list_all (\<lambda>k. \<not> terminal (?st k)) [0..<Suc n]" using all by blast
      moreover from b head have "writes w' = writes w @
               map (\<lambda>k. (id_r r, merged_job t (?st k) (now w'))) [0..<Suc n]
               @ [(id_r r, t\<lparr>status := Error, error := Some ''Transcription polling timed out''\<rparr>)]"
        by (metis append.assoc)
      ultimately show ?thesis using b by blast
    qed
    have 6: "db w' = (db w)(id_r r \<mapsto> stored\<lparr>transcription := Some (snd (last (writes w')))\<rparr>)"
      unfolding db' d1 by simp
    from 1 2 3 4 5 6 show ?thesis by blast
  qed
qed

lemma checkStatus_reply:
  assumes "getAdapter w = Some apiKey" "transcription r = Some t" "jobId t = Some j" "j \<noteq> []"
    and "db w (id_r r) = Some stored"
  shows "\<exists>w'. checkStatus net r w = (Returned (), w')
     \<and> fetches w' = fetches w @ [GetTranscript apiKey j]
     \<and> now w' = now w + int (latency net (length (fetches w)))
     \<and> sleeps w' = sleeps w
     \<and> writes w' = writes w @ [(id_r r, merged_job t (poll_reply net apiKey j w 0) (now w'))]
     \<and> db w' = (db w)(id_r r \<mapsto> stored\<lparr>transcription :=
            Some (merged_job t (poll_reply net apiKey j w 0) (now w'))\<rparr>)"
proof -
  define st where "st = poll_reply net apiKey j w 0"
  have c: "adapter_checkStatus net apiKey j w =
      (Returned st, w\<lparr>now := now w + int (latency net (length (fetches w))),
                      fetches := fetches w @ [GetTranscript apiKey j]\<rparr>)"
    unfolding st_def poll_reply_def using adapter_checkStatus_reply [of net apiKey j w] by simp
  define w' where "w' = snd (checkStatus net r w)"
  have 1: "checkStatus net r w = (Returned (), w')"
    and 2: "fetches w' = fetches w @ [GetTranscript apiKey j]"
    and 3: "now w' = now w + int (latency net (length (fetches w)))"
    and 4: "sleeps w' = sleeps w"
    and 5: "writes w' = writes w @
          [(id_r r, merged_job t st (now w + int (latency net (length (fetches w)))))]"
    and 6: "db w' = (db w)(id_r r \<mapsto> stored\<lparr>transcription :=
            Some (merged_job t st (now w + int (latency net (length (fetches w)))))\<rparr>)"
    unfolding w'_def merged_job_eq [symmetric] using assms c
    by (simp_all add: checkStatus_def monad_defs recordingsUpdate_def)
  from 1 2 3 4 5 6 show ?thesis unfolding st_def by simp
qed

lemma pollUntilComplete_writes:
  assumes "getAdapter w = Some apiKey" "transcription r = Some t" "jobId t = Some j" "j \<noteq> []"
    and "db w (id_r r) = Some stored"
  shows "\<exists>n w'. pollUntilComplete net r w = (Returned (), w')
     \<and> 0 < n \<and> n \<le> maxAttempts
     \<and> fetches w' = fetches w @ replicate n (GetTranscript apiKey j)
     \<and> list_all (\<lambda>k. \<not> terminal (poll_reply net apiKey j w k)) [0..<n - 1]
     \<and> (terminal (poll_reply net apiKey j w (n - 1))
          \<and> writes w' = writes w @
               map (\<lambda>k. (id_r r, merged_job t (poll_reply net apiKey j w k) (now w'))) [0..<n]
        \<or> n = maxAttempts \<and> \<not> terminal (poll_reply net apiKey j w (n - 1))
          \<and> writes w' = writes w @
               map (\<lambda>k. (id_r r, merged_job t (poll_reply net apiKey j w k) (now w'))) [0..<n]
               @ [(id_r r, t\<lparr>status := Error, error := Some ''Transcription polling timed out''\<rparr>)])
     \<and> db w' = (db w)(id_r r \<mapsto> stored\<lparr>transcription := Some (snd (last (writes w')))\<rparr>)"
proof -
  let ?st = "poll_reply net apiKey j w"
  have eq: "pollUntilComplete net r w = poll_loop net apiKey r t j 0 w"
    using assms by (simp add: pollUntilComplete_def)
  from poll_loop_writes [OF _ _ assms(5), of maxAttempts 0 net apiKey t j]
  obtain n w' where
    1: "poll_loop net apiKey r t j 0 w = (Returned (), w')"
    and 2: "n \<le> maxAttempts"
    and 3: "fetches w' = fetches w @ replicate n (GetTranscript apiKey j)"
    and 4: "list_all (\<lambda>k. \<not> terminal (?st k)) [0..<n - 1]"
    and 5: "0 < n \<and> terminal (?st (n - 1))
          \<and> writes w' = writes w @
               map (\<lambda>k. (id_r r, merged_job t (?st k) (now w'))) [0..<n]
        \<or> n = maxAttempts \<and> list_all (\<lambda>k. \<not> terminal (?st k)) [0..<n]
          \<and> writes w' = writes w @
               map (\<lambda>k. (id_r r, merged_job t (?st k) (now w'))) [0..<n]
               @ [(id_r r, t\<lparr>status := Error, error := Some ''Transcription polling timed out''\<rparr>)]"
    and 6: "db w' = (db w)(id_r r \<mapsto> stored\<lparr>transcription := Some (snd (last (writes w')))\<rparr>)"
    by auto
  from 5 have pos: "0 < n" by (auto simp: maxAttempts_def)
  have last: "\<not> terminal (?st (n - 1))" if "list_all (\<lambda>k. \<not> terminal (?st k)) [0..<n]"
    using that pos unfolding list_all_iff by simp
  from 5 last have 7: "terminal (?st (n - 1))
          \<and> writes w' = writes w @
               map (\<lambda>k. (id_r r, merged_job t (?st k) (now w'))) [0..<n]
        \<or> n = maxAttempts \<and> \<not> terminal (?st (n - 1))
          \<and> writes w' = writes w @
               map (\<lambda>k. (id_r r, merged_job t (?st k) (now w'))) [0..<n]
               @ [(id_r r, t\<lparr>status := Error, error := Some ''Transcription polling timed out''\<rparr>)]"
    by blast
  from 1 eq have "pollUntilComplete net r w = (Returned (), w')" by simp
  with pos 2 3 4 7 6 show ?thesis by blast
qed

subsection \<open>Preserving the invariant\<close>

lemma preservesD: "preserves I m \<Longrightarrow> I w \<Longrightarrow> I (snd (m w))"
  by (simp add: preserves_def)

lemma preserves_return [simp]: "preserves I (return_js v)"
  by (simp add: preserves_def return_js_def)

lemma preserves_new_Date [simp]: "preserves I new_Date"
  by (simp add: preserves_def new_Date_def)

lemma preserves_and_then:
  "preserves I m \<Longrightarrow> (\<And>a. preserves I (f a)) \<Longrightarrow> preserves I (and_then m f)"
  unfolding preserves_def and_then_def
  by (auto split: prod.splits outcome.splits)

lemma preserves_try_catch:
  "preserves I m \<Longrightarrow> (\<And>x. preserves I (h x)) \<Longrightarrow> preserves I (try_catch m h)"
  unfolding preserves_def try_catch_def
  by (auto split: prod.splits outcome.splits)

lemma preserves_if:
  "preserves I a \<Longrightarrow> preserves I b \<Longrightarrow> preserves I (if c then a else b)"
  by simp

lemma jobs_ok_frame:
  "recordings w' = recordings w \<Longrightarrow> db w' = db w \<Longrightarrow> writes w' = writes w
   \<Longrightarrow> jobs_ok w' = jobs_ok w"
  by (simp add: jobs_ok_def)

lemma preserves_sleep [simp]: "preserves jobs_ok (sleep ms)"
  by (simp add: preserves_def sleep_def jobs_ok_def)

lemma preserves_adapter_checkStatus [simp]: "preserves jobs_ok (adapter_checkStatus net apiKey j)"
  unfolding preserves_def
proof (intro allI impI)
  fix w assume "jobs_ok w"
  obtain st where "adapter_checkStatus net apiKey j w =
      (Returned st, w\<lparr>now := now w + int (latency net (length (fetches w))),
                      fetches := fetches w @ [GetTranscript apiKey j]\<rparr>)"
    using adapter_checkStatus_eq [of net apiKey j w] by blast
  with \<open>jobs_ok w\<close> show "jobs_ok (snd (adapter_checkStatus net apiKey j w))"
    by (simp add: jobs_ok_def)
qed

lemma preserves_adapter_transcribe [simp]:
  "preserves jobs_ok (adapter_transcribe net apiKey b options)"
  unfolding preserves_def
proof (intro allI impI)
  fix w assume "jobs_ok w"
  obtain out w' where e: "adapter_transcribe net apiKey b options w = (out, w')" by fastforce
  from adapter_transcribe_frame [OF e] \<open>jobs_ok w\<close> e
  show "jobs_ok (snd (adapter_transcribe net apiKey b options w))"
    by (simp add: jobs_ok_def)
qed

lemma preserves_recordingsUpdate:
  "completedAt_iff_completed t \<Longrightarrow> preserves jobs_ok (recordingsUpdate i t)"
  unfolding preserves_def recordingsUpdate_def jobs_ok_def
  by (auto split: option.splits simp: ran_def)

lemma ok_merge [simp]:
  "completedAt_iff_completed
     (t\<lparr>status := s, text_t := x, error := e, completedAt := (if s = Completed then Some d else None)\<rparr>)"
  by (simp add: completedAt_iff_completed_def)

lemma ok_error:
  "completedAt t = None \<Longrightarrow> completedAt_iff_completed (t\<lparr>status := Error, error := e\<rparr>)"
  by (simp add: completedAt_iff_completed_def)

lemma ok_in_progress:
  "completedAt_iff_completed t \<Longrightarrow> status t \<noteq> Completed \<Longrightarrow> completedAt t = None"
  by (simp add: completedAt_iff_completed_def)

lemma preserves_poll_attempt:
  "completedAt t = None \<Longrightarrow> preserves jobs_ok (poll_attempt net apiKey r t j)"
  unfolding poll_attempt_def
  by (intro preserves_try_catch preserves_and_then preserves_if preserves_recordingsUpdate
      preserves_adapter_checkStatus preserves_new_Date preserves_return preserves_sleep
      ok_merge ok_error)

lemma preserves_poll_loop:
  "completedAt t = None \<Longrightarrow> preserves jobs_ok (poll_loop net apiKey r t j attempts)"
proof (induction net apiKey r t j attempts rule: poll_loop.induct)
  case (1 net apiKey recording t j attempts)
  show ?case
  proof (cases "attempts < maxAttempts")
    case True
    have "preserves jobs_ok
       (and_then (poll_attempt net apiKey recording t j) (\<lambda>returned.
             if returned then return_js ()
             else poll_loop net apiKey recording t j (Suc attempts)))"
      using 1 True
      by (intro preserves_and_then preserves_poll_attempt) simp_all
    then show ?thesis using True by (subst poll_loop.simps) simp
  next
    case False
    then show ?thesis using "1.prems"
      by (subst poll_loop.simps) (simp add: preserves_recordingsUpdate ok_error)
  qed
qed

lemma preserves_pollUntilComplete:
  assumes "\<And>t. transcription r = Some t \<Longrightarrow> completedAt t = None"
  shows "preserves jobs_ok (pollUntilComplete net r)"
  unfolding preserves_def
proof (intro allI impI)
  fix w assume ok: "jobs_ok w"
  show "jobs_ok (snd (pollUntilComplete net r w))"
    using ok assms preservesD [OF preserves_poll_loop, of _ w]
    by (auto simp: pollUntilComplete_def return_js_def split: option.splits)
qed

lemma preserves_transcribe: "preserves jobs_ok (transcribe net r options)"
  unfolding preserves_def
proof (intro allI impI)
  fix w assume ok: "jobs_ok w"
  show "jobs_ok (snd (transcribe net r options w))"
  proof (cases "getAdapter w")
    case None
    then show ?thesis using ok by (simp add: transcribe_def return_js_def)
  next
    case (Some apiKey)
    have "preserves jobs_ok (and_then new_Date (\<lambda>d0.
          and_then (recordingsUpdate (id_r r)
                      \<lparr>status = Processing, text_t = None, error = None, service = adapter_name,
                       jobId = None, startedAt = Some d0, completedAt = None\<rparr>) (\<lambda>_.
          try_catch
            (and_then (adapter_transcribe net apiKey (blob r) options) (\<lambda>result.
             and_then new_Date (\<lambda>d.
             and_then (recordingsUpdate (id_r r)
                         \<lparr>status = r_status result, text_t = r_text result,
                          error = r_error result, service = adapter_name,
                          jobId = r_jobId result, startedAt = Some d,
                          completedAt = (if r_status result = Completed then Some d else None)\<rparr>) (\<lambda>_.
             if r_status result = Processing \<and> truthy (r_jobId result)
             then (\<lambda>w'. return_js (find (\<lambda>x. id_r x = id_r r) (recordings w')) w')
             else return_js None))))
            (\<lambda>error.
             and_then (recordingsUpdate (id_r r)
                         \<lparr>status = Error, text_t = None,
                          error = Some (message_or error ''Transcription failed''),
                          service = adapter_name, jobId = None, startedAt = None,
                          completedAt = None\<rparr>) (\<lambda>_.
             return_js None)))))"
      apply (intro preserves_try_catch preserves_and_then preserves_if preserves_recordingsUpdate
          preserves_adapter_transcribe preserves_new_Date preserves_return)
         apply (simp_all add: completedAt_iff_completed_def)
      apply (simp add: preserves_def return_js_def)
      done
    from preservesD [OF this ok] Some show ?thesis by (simp add: transcribe_def)
  qed
qed

lemma preserves_checkStatus: "preserves jobs_ok (checkStatus net r)"
  unfolding preserves_def
proof (intro allI impI)
  fix w assume ok: "jobs_ok w"
  have p: "\<And>apiKey j t. preserves jobs_ok (try_catch
                           (and_then (adapter_checkStatus net apiKey j) (\<lambda>st.
                            and_then new_Date (\<lambda>d.
                            recordingsUpdate (id_r r)
                              (t\<lparr>status := s_status st,
                                 text_t := js_or (s_text st) (text_t t),
                                 error := s_error st,
                                 completedAt := (if s_status st = Completed then Some d else None)\<rparr>))))
                           (\<lambda>error. return_js ()))"
    by (intro preserves_try_catch preserves_and_then preserves_recordingsUpdate
        preserves_adapter_checkStatus preserves_new_Date preserves_return ok_merge)
  show "jobs_ok (snd (checkStatus net r w))"
    using ok preservesD [OF p ok]
    by (auto simp: checkStatus_def return_js_def split: option.splits)
qed

lemma preserves_resumePolling:
  assumes "\<And>t. transcription r = Some t \<Longrightarrow> completedAt_iff_completed t"
  shows "preserves jobs_ok (resumePolling net r)"
  unfolding preserves_def
proof (intro allI impI)
  fix w assume ok: "jobs_ok w"
  show "jobs_ok (snd (resumePolling net r w))"
  proof (cases "transcription r")
    case None
    then show ?thesis using ok by (simp add: resumePolling_def return_js_def)
  next
    case (Some t)
    show ?thesis
    proof (cases "status t = Processing \<or> status t = Pending")
      case False
      then show ?thesis using ok Some by (simp add: resumePolling_def return_js_def)
    next
      case True
      then have c: "completedAt t = None"
        using assms [OF Some] by (auto intro: ok_in_progress)
      have 1: "jobs_ok (snd (pollUntilComplete net r w))"
        using preservesD [OF preserves_pollUntilComplete ok, of r net] Some c by simp
      have 2: "\<And>e. jobs_ok (snd (recordingsUpdate (id_r r) (t\<lparr>status := Error, error := e\<rparr>) w))"
        using preservesD [OF preserves_recordingsUpdate ok] ok_error [OF c] by simp
      show ?thesis using ok Some 1 2
        by (auto simp: resumePolling_def return_js_def Let_def split: option.splits)
    qed
  qed
qed

lemma preserves_clearAll_loop:
  "(\<And>r t. r \<in> set rs \<Longrightarrow> transcription r = Some t \<Longrightarrow> completedAt_iff_completed t)
   \<Longrightarrow> preserves jobs_ok (clearAll_loop rs c)"
proof (induction rs arbitrary: c)
  case Nil
  then show ?case by simp
next
  case (Cons r rs)
  have ih: "\<And>c. preserves jobs_ok (clearAll_loop rs c)"
    by (rule Cons.IH) (rule Cons.prems, simp_all)
  show ?case
  proof (cases "transcription r")
    case None
    then show ?thesis using ih by simp
  next
    case (Some t)
    have "status t = Processing \<or> status t = Pending \<Longrightarrow> completedAt t = None"
      using Cons.prems [of r t] Some by (auto intro: ok_in_progress)
    then have "preserves jobs_ok (and_then (recordingsUpdate (id_r r)
                           (t\<lparr>status := Error, error := Some ''Cleared by user''\<rparr>)) (\<lambda>_.
               clearAll_loop rs (Suc c)))" if "status t = Processing \<or> status t = Pending"
      using that ih by (intro preserves_and_then preserves_recordingsUpdate ok_error) simp_all
    then show ?thesis using Some ih by simp
  qed
qed

lemma preserves_clearTimedOut_loop:
  "(\<And>r t. r \<in> set rs \<Longrightarrow> transcription r = Some t \<Longrightarrow> completedAt_iff_completed t)
   \<Longrightarrow> preserves jobs_ok (clearTimedOut_loop rs c)"
proof (induction rs arbitrary: c)
  case Nil
  then show ?case by simp
next
  case (Cons r rs)
  have ih: "\<And>c. preserves jobs_ok (clearTimedOut_loop rs c)"
    by (rule Cons.IH) (rule Cons.prems, simp_all)
  show ?case
  proof (cases "transcription r")
    case None
    then show ?thesis using ih by simp
  next
    case (Some t)
    have "status t = Processing \<or> status t = Pending \<Longrightarrow> completedAt t = None"
      using Cons.prems [of r t] Some by (auto intro: ok_in_progress)
    then have "preserves jobs_ok (and_then new_Date (\<lambda>d.
                      if d - started > timeoutMs
                      then and_then (recordingsUpdate (id_r r)
                                       (t\<lparr>status := Error, error := Some ''Cleared - timed out''\<rparr>)) (\<lambda>_.
                           clearTimedOut_loop rs (Suc c))
                      else clearTimedOut_loop rs c))"
      if "status t = Processing \<or> status t = Pending" for started
      using that ih
      by (intro preserves_and_then preserves_recordingsUpdate ok_error preserves_if
          preserves_new_Date) simp_all
    then show ?thesis using Some ih by (simp split: option.splits)
  qed
qed

lemma jobs_ok_clearAll: "jobs_ok w \<Longrightarrow> jobs_ok (snd (clearAllInProgressTranscriptions w))"
  unfolding clearAllInProgressTranscriptions_def
  by (rule preservesD [OF preserves_clearAll_loop]) (auto simp: jobs_ok_def)

lemma jobs_ok_clearTimedOut: "jobs_ok w \<Longrightarrow> jobs_ok (snd (clearTimedOutTranscriptions w))"
  unfolding clearTimedOutTranscriptions_def
  by (rule preservesD [OF preserves_clearTimedOut_loop]) (auto simp: jobs_ok_def)

lemma find_updated:
  "find (\<lambda>x. id_r x = i) (map (\<lambda>r. if id_r r = i then r\<lparr>transcription := Some t\<rparr> else r) rs) = Some u
   \<Longrightarrow> transcription u = Some t"
proof (induction rs)
  case Nil
  then show ?case by simp
next
  case (Cons r rs)
  show ?case
  proof (cases "id_r r = i")
    case True
    with Cons.prems have "u = r\<lparr>transcription := Some t\<rparr>" by simp
    then show ?thesis by simp
  next
    case False
    with Cons.prems have "find (\<lambda>x. id_r x = i)
        (map (\<lambda>r. if id_r r = i then r\<lparr>transcription := Some t\<rparr> else r) rs) = Some u"
      by simp
    then show ?thesis by (rule Cons.IH)
  qed
qed

lemma recordingsUpdate_cases:
  "(\<exists>x. recordingsUpdate i t w = (Thrown x, w) \<and> db w i = None)
   \<or> (\<exists>r. db w i = Some r \<and> recordingsUpdate i t w =
        (Returned (), w\<lparr>db := (db w)(i \<mapsto> r\<lparr>transcription := Some t\<rparr>),
          recordings := map (\<lambda>r. if id_r r = i then r\<lparr>transcription := Some t\<rparr> else r) (recordings w),
          writes := writes w @ [(i, t)]\<rparr>))"
  by (cases "db w i") (simp_all add: recordingsUpdate_def)

lemma transcribe_spawned:
  assumes "fst (transcribe net r options w) = Returned (Some u)"
  shows "\<exists>t. transcription u = Some t \<and> status t = Processing \<and> completedAt t = None"
proof (cases "getAdapter w")
  case None
  with assms show ?thesis by (simp add: transcribe_def return_js_def)
next
  case (Some apiKey)
  define t1 where "t1 = \<lparr>status = Processing, text_t = None, error = None, service = adapter_name,
                       jobId = None, startedAt = Some (now w), completedAt = None\<rparr>"
  consider x where "recordingsUpdate (id_r r) t1 w = (Thrown x, w)"
    | w1 where "recordingsUpdate (id_r r) t1 w = (Returned (), w1)"
    using recordingsUpdate_cases [of "id_r r" t1 w] by auto
  then show ?thesis
  proof cases
    case 1
    with assms Some show ?thesis by (simp add: transcribe_def monad_defs t1_def)
  next
    case 2
    obtain result w2 where a: "adapter_transcribe net apiKey (blob r) options w1 = (Returned result, w2)"
      using adapter_transcribe_cases [of net apiKey "blob r" options w1] by blast
    define t2 where "t2 = \<lparr>status = r_status result, text_t = r_text result,
                          error = r_error result, service = adapter_name,
                          jobId = r_jobId result, startedAt = Some (now w2),
                          completedAt = (if r_status result = Completed then Some (now w2) else None)\<rparr>"
    define t3 where "t3 = (\<lambda>x. \<lparr>status = Error, text_t = None,
                          error = Some (message_or x ''Transcription failed''),
                          service = adapter_name, jobId = None, startedAt = None,
                          completedAt = None\<rparr>)"
    consider x where "recordingsUpdate (id_r r) t2 w2 = (Thrown x, w2)"
      | stored where "recordingsUpdate (id_r r) t2 w2 =
        (Returned (), w2\<lparr>db := (db w2)(id_r r \<mapsto> stored\<lparr>transcription := Some t2\<rparr>),
          recordings := map (\<lambda>x. if id_r x = id_r r then x\<lparr>transcription := Some t2\<rparr> else x) (recordings w2),
          writes := writes w2 @ [(id_r r, t2)]\<rparr>)"
      using recordingsUpdate_cases [of "id_r r" t2 w2] by auto
    then show ?thesis
    proof cases
      case 1
      have "fst (transcribe net r options w) \<noteq> Returned (Some u)"
        using Some 2 a 1 recordingsUpdate_cases [of "id_r r" "t3 x" w2]
        by (auto simp: transcribe_def monad_defs t1_def [symmetric] t2_def [symmetric] t3_def)
      with assms show ?thesis by simp
    next
      case 2
      note u2 = 2
      have eq: "fst (transcribe net r options w) =
         (if r_status result = Processing \<and> truthy (r_jobId result)
          then Returned (find (\<lambda>x. id_r x = id_r r)
                (map (\<lambda>x. if id_r x = id_r r then x\<lparr>transcription := Some t2\<rparr> else x) (recordings w2)))
          else Returned None)"
        using Some \<open>recordingsUpdate (id_r r) t1 w = (Returned (), w1)\<close> a u2
        by (simp add: transcribe_def monad_defs t1_def [symmetric] t2_def [symmetric])
      show ?thesis
      proof (cases "r_status result = Processing \<and> truthy (r_jobId result)")
        case True
        with assms eq
        have "find (\<lambda>x. id_r x = id_r r)
                (map (\<lambda>x. if id_r x = id_r r then x\<lparr>transcription := Some t2\<rparr> else x) (recordings w2))
              = Some u"
          by simp
        then have "transcription u = Some t2" by (rule find_updated)
        with True show ?thesis by (simp add: t2_def)
      next
        case False
        with assms eq show ?thesis by simp
      qed
    qed
  qed
qed

lemma jobs_ok_member:
  "jobs_ok w \<Longrightarrow> r \<in> set (recordings w) \<Longrightarrow> transcription r = Some t \<Longrightarrow> completedAt_iff_completed t"
  by (simp add: jobs_ok_def)

lemma fresh_jobs_ok: "fresh w \<Longrightarrow> jobs_ok w"
  by (simp add: fresh_def jobs_ok_def)

subsection \<open>Effects of the polling loop\<close>

lemma poll_attempt_missing:
  assumes "db w (id_r r) = None"
  shows "\<exists>x. poll_attempt net apiKey r t j w =
      (Thrown x, w\<lparr>now := now w + int (latency net (length (fetches w))),
                    fetches := fetches w @ [GetTranscript apiKey j]\<rparr>)"
proof -
  obtain st where c: "adapter_checkStatus net apiKey j w =
      (Returned st, w\<lparr>now := now w + int (latency net (length (fetches w))),
                      fetches := fetches w @ [GetTranscript apiKey j]\<rparr>)"
    using adapter_checkStatus_eq [of net apiKey j w] by blast
  show ?thesis using assms c
    by (simp add: poll_attempt_def monad_defs recordingsUpdate_def)
qed

lemma poll_attempt_effects:
  "\<exists>ws. writes (snd (poll_attempt net apiKey r t j w)) = writes w @ ws
      \<and> (\<forall>(i, t') \<in> set ws. i = id_r r \<and> poll_write t t')
      \<and> fetches (snd (poll_attempt net apiKey r t j w)) = fetches w @ [GetTranscript apiKey j]"
proof (cases "db w (id_r r)")
  case None
  from poll_attempt_missing [OF None, of net apiKey t j] show ?thesis by auto
next
  case (Some stored)
  from poll_attempt_stored [OF Some, of net apiKey t j]
  obtain st :: TranscriptionStatusResult and d w' where
    "poll_attempt net apiKey r t j w = (Returned (s_status st = Completed \<or> s_status st = Error), w')"
    "fetches w' = fetches w @ [GetTranscript apiKey j]"
    "writes w' = writes w @
          [(id_r r, t\<lparr>status := s_status st, text_t := js_or (s_text st) (text_t t),
                      error := s_error st,
                      completedAt := (if s_status st = Completed then Some d else None)\<rparr>)]"
    by blast
  then show ?thesis by (auto simp: poll_write_def)
qed

lemma recordingsUpdate_effects:
  "\<exists>ws. writes (snd (recordingsUpdate i t w)) = writes w @ ws \<and> set ws \<subseteq> {(i, t)}
     \<and> fetches (snd (recordingsUpdate i t w)) = fetches w"
  using recordingsUpdate_cases [of i t w] by auto

lemma poll_loop_effects:
  "\<exists>ws n. writes (snd (poll_loop net apiKey r t j attempts w)) = writes w @ ws
      \<and> (\<forall>(i, t') \<in> set ws. i = id_r r \<and> poll_write t t')
      \<and> fetches (snd (poll_loop net apiKey r t j attempts w))
          = fetches w @ replicate n (GetTranscript apiKey j)
      \<and> n \<le> maxAttempts - attempts \<and> (attempts < maxAttempts \<longrightarrow> 1 \<le> n)"
proof (induction net apiKey r t j attempts arbitrary: w rule: poll_loop.induct)
  case (1 net apiKey r t j attempts)
  show ?case
  proof (cases "attempts < maxAttempts")
    case False
    from recordingsUpdate_effects [of "id_r r" "t\<lparr>status := Error, error := Some ''Transcription polling timed out''\<rparr>" w]
    obtain ws where ws: "writes (snd (recordingsUpdate (id_r r)
         (t\<lparr>status := Error, error := Some ''Transcription polling timed out''\<rparr>) w)) = writes w @ ws"
      "set ws \<subseteq> {(id_r r, t\<lparr>status := Error, error := Some ''Transcription polling timed out''\<rparr>)}"
      "fetches (snd (recordingsUpdate (id_r r)
         (t\<lparr>status := Error, error := Some ''Transcription polling timed out''\<rparr>) w)) = fetches w"
      by blast
    have "\<forall>(i, t') \<in> set ws. i = id_r r \<and> poll_write t t'"
      using ws(2) by (auto simp: poll_write_def)
    with ws False show ?thesis
      by (subst (1 2) poll_loop.simps) (auto intro!: exI [of _ ws] exI [of _ 0])
  next
    case True
    obtain out w1 where pa: "poll_attempt net apiKey r t j w = (out, w1)" by fastforce
    from poll_attempt_effects [of net apiKey r t j w] pa
    obtain ws1 where e1: "writes w1 = writes w @ ws1"
      "\<forall>(i, t') \<in> set ws1. i = id_r r \<and> poll_write t t'"
      "fetches w1 = fetches w @ [GetTranscript apiKey j]"
      by auto
    show ?thesis
    proof (cases "out = Returned False")
      case False
      then have "snd (poll_loop net apiKey r t j attempts w) = w1"
        using True pa
        by (subst poll_loop.simps) (cases out; simp add: monad_defs)
      with e1 True show ?thesis
        by (auto intro!: exI [of _ ws1] exI [of _ 1])
    next
      case cont: True
      then have step: "poll_loop net apiKey r t j attempts w
           = poll_loop net apiKey r t j (Suc attempts) w1"
        using True pa by (subst poll_loop.simps) (simp add: monad_defs)
      from "1.IH" [OF True, of False w1]
      obtain ws2 n where e2:
        "writes (snd (poll_loop net apiKey r t j (Suc attempts) w1)) = writes w1 @ ws2"
        "\<forall>(i, t') \<in> set ws2. i = id_r r \<and> poll_write t t'"
        "fetches (snd (poll_loop net apiKey r t j (Suc attempts) w1))
          = fetches w1 @ replicate n (GetTranscript apiKey j)"
        "n \<le> maxAttempts - Suc attempts"
        by auto
      have "\<forall>(i, t') \<in> set (ws1 @ ws2). i = id_r r \<and> poll_write t t'"
        using e1(2) e2(2) by auto
      moreover have "fetches (snd (poll_loop net apiKey r t j attempts w))
          = fetches w @ replicate (Suc n) (GetTranscript apiKey j)"
        using step e1(3) e2(3) by simp
      moreover have "writes (snd (poll_loop net apiKey r t j attempts w)) = writes w @ (ws1 @ ws2)"
        using step e1(1) e2(1) by simp
      moreover have "Suc n \<le> maxAttempts - attempts" using e2(4) True by simp
      ultimately show ?thesis
        by (intro exI [of _ "ws1 @ ws2"] exI [of _ "Suc n"]) simp
    qed
  qed
qed

lemma pollUntilComplete_fetches:
  "length (fetches (snd (pollUntilComplete net r w))) \<le> length (fetches w) + maxAttempts"
proof -
  have "length (fetches (snd (poll_loop net apiKey r t j 0 w))) \<le> length (fetches w) + maxAttempts"
    for apiKey t j
    using poll_loop_effects [of net apiKey r t j 0 w] by auto
  then show ?thesis
    by (simp add: pollUntilComplete_def return_js_def split: option.splits)
qed

subsection \<open>The bulk clear\<close>

lemma find_absent:
  "i \<notin> id_r ` set rs \<Longrightarrow> find (\<lambda>r. id_r r = i \<and> P r) rs = None"
  by (induction rs) auto

lemma find_distinct:
  "distinct (map id_r rs) \<Longrightarrow> x \<in> set rs
   \<Longrightarrow> find (\<lambda>r. id_r r = id_r x \<and> P r) rs = (if P x then Some x else None)"
proof (induction rs)
  case Nil
  then show ?case by simp
next
  case (Cons r rs)
  show ?case
  proof (cases "x = r")
    case True
    with Cons.prems show ?thesis by (simp add: find_absent)
  next
    case False
    with Cons.prems have "x \<in> set rs" "id_r r \<noteq> id_r x" by auto
    with Cons show ?thesis by simp
  qed
qed

lemma clear_with_Nil [simp]: "clear_with [] i x = x"
  by (simp add: clear_with_def)

lemma clear_with_skip:
  "\<not> in_progress r \<Longrightarrow> clear_with (r # rs) i x = clear_with rs i x"
  by (simp add: clear_with_def)

lemma clear_with_other:
  "id_r r \<noteq> i \<Longrightarrow> clear_with (r # rs) i x = clear_with rs i x"
  by (simp add: clear_with_def)

lemma clear_with_hit:
  "in_progress r \<Longrightarrow> transcription r = Some t \<Longrightarrow> id_r r \<notin> id_r ` set rs \<Longrightarrow>
   clear_with rs (id_r r) (x\<lparr>transcription := Some (t\<lparr>status := Error, error := Some ''Cleared by user''\<rparr>)\<rparr>)
     = clear_with (r # rs) (id_r r) x"
  by (simp add: clear_with_def find_absent cleared_by_user_def in_progress_def)

lemma clearAll_loop_result:
  assumes "distinct (map id_r rs)"
    and "\<forall>r \<in> set rs. in_progress r \<longrightarrow> db w (id_r r) \<noteq> None"
  shows "\<exists>w'. clearAll_loop rs c w = (Returned (c + length (filter in_progress rs)), w')
    \<and> recordings w' = map (\<lambda>x. clear_with rs (id_r x) x) (recordings w)
    \<and> (\<forall>i. db w' i = map_option (clear_with rs i) (db w i))
    \<and> length (writes w') = length (writes w) + length (filter in_progress rs)
    \<and> fetches w' = fetches w \<and> settings w' = settings w \<and> now w' = now w
    \<and> sleeps w' = sleeps w"
  using assms
proof (induction rs arbitrary: c w)
  case Nil
  then show ?case by (simp add: return_js_def option.map_ident)
next
  case (Cons r rs)
  have d: "distinct (map id_r rs)" and nr: "id_r r \<notin> id_r ` set rs"
    using Cons.prems(1) by auto
  show ?case
  proof (cases "in_progress r")
    case False
    have skip: "clearAll_loop (r # rs) c w = clearAll_loop rs c w"
    proof (cases "transcription r")
      case None
      then show ?thesis by simp
    next
      case (Some t)
      with False have "\<not> (status t = Processing \<or> status t = Pending)"
        by (simp add: in_progress_def)
      with Some show ?thesis by simp
    qed
    have "\<forall>r \<in> set rs. in_progress r \<longrightarrow> db w (id_r r) \<noteq> None"
      using Cons.prems(2) by simp
    from Cons.IH [OF d this, of c] skip False show ?thesis
      by (simp add: clear_with_skip)
  next
    case True
    then obtain t where t: "transcription r = Some t" "status t = Processing \<or> status t = Pending"
      by (auto simp: in_progress_def split: option.splits)
    obtain stored where s: "db w (id_r r) = Some stored"
      using Cons.prems(2) True by auto
    define ct where "ct = t\<lparr>status := Error, error := Some ''Cleared by user''\<rparr>"
    define w1 where "w1 = w\<lparr>db := (db w)(id_r r \<mapsto> stored\<lparr>transcription := Some ct\<rparr>),
        recordings := map (\<lambda>x. if id_r x = id_r r then x\<lparr>transcription := Some ct\<rparr> else x) (recordings w),
        writes := writes w @ [(id_r r, ct)]\<rparr>"
    have u: "recordingsUpdate (id_r r) ct w = (Returned (), w1)"
      using s by (simp add: recordingsUpdate_def w1_def)
    have step: "clearAll_loop (r # rs) c w = clearAll_loop rs (Suc c) w1"
      using t u by (simp add: and_then_def ct_def)
    have pre: "\<forall>r' \<in> set rs. in_progress r' \<longrightarrow> db w1 (id_r r') \<noteq> None"
      using Cons.prems(2) by (simp add: w1_def)
    from Cons.IH [OF d pre, of "Suc c"] obtain w' where
      r1: "clearAll_loop rs (Suc c) w1 = (Returned (Suc c + length (filter in_progress rs)), w')"
      and r2: "recordings w' = map (\<lambda>x. clear_with rs (id_r x) x) (recordings w1)"
      and r3: "\<forall>i. db w' i = map_option (clear_with rs i) (db w1 i)"
      and r4: "length (writes w') = length (writes w1) + length (filter in_progress rs)"
      and r5: "fetches w' = fetches w1" "settings w' = settings w1" "now w' = now w1"
        "sleeps w' = sleeps w1"
      by blast
    have hit: "\<And>x. clear_with rs (id_r r) (x\<lparr>transcription := Some ct\<rparr>) = clear_with (r # rs) (id_r r) x"
      unfolding ct_def using True t(1) nr by (rule clear_with_hit)
    have m: "recordings w' = map (\<lambda>x. clear_with (r # rs) (id_r x) x) (recordings w)"
      unfolding r2 w1_def by (auto simp: hit clear_with_other)
    have dbm: "\<forall>i. db w' i = map_option (clear_with (r # rs) i) (db w i)"
    proof
      fix i
      show "db w' i = map_option (clear_with (r # rs) i) (db w i)"
      proof (cases "i = id_r r")
        case True
        then show ?thesis using r3 s hit by (simp add: w1_def)
      next
        case False
        then have "clear_with (r # rs) i = clear_with rs i"
          by (intro ext) (simp add: clear_with_other)
        with False show ?thesis using r3 by (simp add: w1_def)
      qed
    qed
    show ?thesis
      using step r1 m dbm r4 r5 True by (simp add: w1_def)
  qed
qed

lemma cleared_by_user_changes: "cleared_by_user r \<noteq> r \<longleftrightarrow> in_progress r"
proof (cases "transcription r")
  case None
  then show ?thesis by (simp add: cleared_by_user_def in_progress_def)
next
  case (Some t)
  show ?thesis
  proof (cases "status t = Processing \<or> status t = Pending")
    case False
    with Some show ?thesis by (simp add: cleared_by_user_def in_progress_def)
  next
    case True
    have "cleared_by_user r \<noteq> r"
    proof
      assume "cleared_by_user r = r"
      then have "transcription (cleared_by_user r) = transcription r" by (rule arg_cong)
      then have "t\<lparr>status := Error, error := Some ''Cleared by user''\<rparr> = t"
        using Some True by (simp add: cleared_by_user_def)
      then have "status (t\<lparr>status := Error, error := Some ''Cleared by user''\<rparr>) = status t"
        by (rule arg_cong)
      then show False using True by auto
    qed
    with Some True show ?thesis by (simp add: in_progress_def)
  qed
qed


lemma cleared_by_user_id [simp]: "id_r (cleared_by_user r) = id_r r"
  by (simp add: cleared_by_user_def split: option.splits)

lemma store_ok_cleared:
  assumes "store_ok w"
    and "recordings w' = map cleared_by_user (recordings w)"
    and "\<forall>i. db w' i = map_option cleared_by_user (db w i)"
  shows "store_ok w'"
proof -
  have d: "distinct (map id_r (recordings w))"
    and s: "\<forall>r \<in> set (recordings w). db w (id_r r) = Some r"
    and k: "dom (db w) = id_r ` set (recordings w)"
    using assms(1) by (simp_all add: store_ok_def)
  have 1: "map id_r (recordings w') = map id_r (recordings w)"
    by (simp add: assms(2) comp_def)
  have 2: "\<forall>r \<in> set (recordings w'). db w' (id_r r) = Some r"
    using s by (auto simp: assms(2) assms(3))
  have 3: "dom (db w') = dom (db w)"
    using assms(3) by (auto simp: dom_def)
  have 4: "id_r ` set (recordings w') = id_r ` set (recordings w)"
    using 1 by (metis set_map)
  show ?thesis
    using d 1 2 3 4 k by (simp add: store_ok_def)
qed

subsection \<open>Example runs\<close>

lemma poll_loop_unfold:
  "attempts < maxAttempts \<Longrightarrow>
   poll_loop net apiKey recording t j attempts w =
     and_then (poll_attempt net apiKey recording t j) (\<lambda>returned.
             if returned then return_js ()
             else poll_loop net apiKey recording t j (Suc attempts)) w"
  by (subst poll_loop.simps) simp

lemmas run_defs = monad_defs recordingsUpdate_def sleep_def fetch_transcript_def fetch_upload_def
  getAdapter_def message_or_def truthy_def js_or_def mapStatus_def status_result_def
  adapter_checkStatus_def adapter_transcribe_def uploadFile_def createTranscript_def
  transcript_body_def poll_attempt_def pollUntilComplete_def poll_loop_unfold maxAttempts_def
  adapter_name_def


lemma example_spawn:
  "fst (transcribe completes example_recording None example_world) = Returned (Some submitted_recording)"
  by (simp add: transcribe_def run_defs example_defs)

lemma example_fresh: "fresh example_world"
  by (simp add: fresh_def example_defs)

lemma example_member: "example_recording \<in> set (recordings example_world)"
  by (simp add: example_defs)

lemma example_final:
  "map transcription (recordings (snd (pollUntilComplete completes submitted_recording
        (snd (transcribe completes example_recording None example_world)))))
   = [Some \<lparr>status = Completed, text_t = Some ''hello'', error = None, service = ''AssemblyAI'',
             jobId = Some ''j1'', startedAt = Some 1000200, completedAt = Some 1000300\<rparr>]"
  by (simp add: transcribe_def run_defs example_defs)

lemma example_poll_replies:
  "poll_reply partial_then_done ''key'' ''j1'' processing_world 0
     = \<lparr>s_status = Processing, s_text = Some ''hello'', s_error = None\<rparr>"
  "poll_reply partial_then_done ''key'' ''j1'' processing_world (Suc 0)
     = \<lparr>s_status = Completed, s_text = None, s_error = None\<rparr>"
  by (simp_all add: poll_reply_def status_of_reply_def example_defs mapStatus_def)

lemma library_store_ok: "store_ok library_world"
  by (auto simp: store_ok_def example_defs)

lemma library_count: "length (filter in_progress (recordings library_world)) = 1"
  by (simp add: in_progress_def example_defs)

section \<open>The invariant of completedAt\<close>

text \<open>
  C1. In every world that a sequence of manager operations reaches (transcribe, retry,
  checkStatus, resumePolling, the polling loop, the two bulk clears, interleaved with
  changes of the settings, new and deleted recordings and the passing of time), every
  stored job, in the in-memory store and in the object store, and every job ever written,
  has completedAt set if and only if its status is completed.
\<close>

theorem completedAt_iff_completed_invariant:
  "reachable net w \<Longrightarrow>
     (\<forall>r \<in> set (recordings w). \<forall>t. transcription r = Some t \<longrightarrow>
        (completedAt t \<noteq> None \<longleftrightarrow> status t = Completed))
     \<and> (\<forall>r \<in> ran (db w). \<forall>t. transcription r = Some t \<longrightarrow>
        (completedAt t \<noteq> None \<longleftrightarrow> status t = Completed))
     \<and> (\<forall>(i, t) \<in> set (writes w). completedAt t \<noteq> None \<longleftrightarrow> status t = Completed)"
proof -
  assume "reachable net w"
  then have "jobs_ok w"
  proof (induction rule: reachable.induct)
    case (r_fresh w)
    then show ?case by (rule fresh_jobs_ok)
  next
    case (r_transcribe w w0 recording options)
    then show ?case by (intro preservesD [OF preserves_transcribe])
  next
    case (r_retry w w0 recording options)
    then show ?case
      by (simp add: retryTranscription_def preservesD [OF preserves_transcribe])
  next
    case (r_poll w w0 recording options updatedRecording)
    from transcribe_spawned [OF r_poll.hyps(4)]
    have "\<And>t. transcription updatedRecording = Some t \<Longrightarrow> completedAt t = None" by auto
    from preservesD [OF preserves_pollUntilComplete [OF this] r_poll.IH(1)]
    show ?case by simp
  next
    case (r_checkStatus w w0 recording)
    then show ?case by (intro preservesD [OF preserves_checkStatus])
  next
    case (r_resumePolling w w0 recording)
    have "\<And>t. transcription recording = Some t \<Longrightarrow> completedAt_iff_completed t"
      using jobs_ok_member [OF r_resumePolling.IH(2) r_resumePolling.hyps(3)] .
    from preservesD [OF preserves_resumePolling [OF this] r_resumePolling.IH(1)]
    show ?case by simp
  next
    case (r_clearTimedOut w)
    then show ?case by (intro jobs_ok_clearTimedOut)
  next
    case (r_clearAll w)
    then show ?case by (intro jobs_ok_clearAll)
  next
    case (r_settings w s)
    then show ?case by (simp add: jobs_ok_def)
  next
    case (r_add w recording)
    then show ?case by (auto simp: jobs_ok_def recordingsAdd_def ran_def)
  next
    case (r_delete w i)
    then show ?case by (auto simp: jobs_ok_def recordingsDelete_def ran_def)
  next
    case (r_time w ms)
    then show ?case by (simp add: jobs_ok_def)
  qed
  then show ?thesis
    by (simp add: jobs_ok_def completedAt_iff_completed_def case_prod_unfold)
qed

text \<open>
  A run that ends with a completed job: the recording is submitted on the network
  \<^const>\<open>completes\<close>, then the polling loop started by \<^verbatim>\<open>transcribe\<close> runs.
\<close>

theorem completedAt_iff_completed_invariant_witness:
  "reachable completes
     (snd (pollUntilComplete completes submitted_recording
        (snd (transcribe completes example_recording None example_world))))
   \<and> list_all
        (\<lambda>r. case transcription r of
               None \<Rightarrow> True
             | Some t \<Rightarrow> (completedAt t \<noteq> None) = (status t = Completed))
        (recordings (snd (pollUntilComplete completes submitted_recording
           (snd (transcribe completes example_recording None example_world)))))"
proof -
  have 0: "reachable completes example_world"
    by (rule r_fresh) (rule example_fresh)
  have 1: "reachable completes (snd (transcribe completes example_recording None example_world))"
    by (rule r_transcribe [OF 0 0 example_member])
  have 2: "reachable completes
     (snd (pollUntilComplete completes submitted_recording
        (snd (transcribe completes example_recording None example_world))))"
    by (rule r_poll [OF 1 0 example_member example_spawn])
  from completedAt_iff_completed_invariant [OF 2] 2 show ?thesis
    by (auto simp: list_all_iff split: option.splits)
qed

section \<open>Submission errors\<close>

text \<open>
  C2, as the code has it. When an adapter is available, the recording is in the store and
  the adapter's upload or submit request fails by throwing \<open>x\<close>, \<^verbatim>\<open>transcribe\<close> makes
  exactly two writes: first the job with status processing (started now, no job id), then
  the job with status error whose message is the message of \<open>x\<close> when \<open>x\<close> is an
  \<^verbatim>\<open>Error\<close> (the provider-reported one) and "Transcription failed" otherwise. It sends
  the requests between the two writes, starts no polling loop and returns; the stored job
  ends with status error, and its status is processing only between the two writes.
\<close>

theorem transcribe_submission_error:
  assumes a: "getAdapter w = Some apiKey"
    and s: "db w (id_r recording) = Some stored"
    and f: "submit_result net apiKey (blob recording) options w = Inl x"
  shows "\<exists>w'. transcribe net recording options w = (Returned None, w')
     \<and> writes w' = writes w @
          [(id_r recording, \<lparr>status = Processing, text_t = None, error = None,
               service = ''AssemblyAI'', jobId = None, startedAt = Some (now w),
               completedAt = None\<rparr>),
           (id_r recording, \<lparr>status = Error, text_t = None,
               error = Some (case x of JsError m \<Rightarrow> m | JsOther \<Rightarrow> ''Transcription failed''),
               service = ''AssemblyAI'', jobId = None, startedAt = Some (now w'),
               completedAt = None\<rparr>)]
     \<and> db w' (id_r recording) = Some (stored\<lparr>transcription :=
          Some \<lparr>status = Error, text_t = None,
                error = Some (case x of JsError m \<Rightarrow> m | JsOther \<Rightarrow> ''Transcription failed''),
                service = ''AssemblyAI'', jobId = None, startedAt = Some (now w'),
                completedAt = None\<rparr>\<rparr>)
     \<and> sleeps w' = sleeps w"
proof -
  define t1 where "t1 = \<lparr>status = Processing, text_t = None, error = None, service = ''AssemblyAI'',
               jobId = None, startedAt = Some (now w), completedAt = None\<rparr>"
  define w1 where "w1 = snd (recordingsUpdate (id_r recording) t1 w)"
  have u1: "recordingsUpdate (id_r recording) t1 w = (Returned (), w1)"
    using s by (simp add: w1_def recordingsUpdate_def)
  have w1f: "fetches w1 = fetches w" "writes w1 = writes w @ [(id_r recording, t1)]"
    "db w1 (id_r recording) = Some (stored\<lparr>transcription := Some t1\<rparr>)"
    "sleeps w1 = sleeps w"
    using s by (simp_all add: w1_def recordingsUpdate_def)
  have f1: "submit_result net apiKey (blob recording) options w1 = Inl x"
    using f submit_result_cong [OF w1f(1)] by simp
  define result where "result = \<lparr>r_jobId = None, r_status = Error, r_text = None,
      r_error = Some (case x of JsError m \<Rightarrow> m | JsOther \<Rightarrow> ''Transcription failed'')\<rparr>"
  obtain w2 where r: "adapter_transcribe net apiKey (blob recording) options w1 = (Returned result, w2)"
    using adapter_transcribe_cases [of net apiKey "blob recording" options w1] f1
    by (auto simp: result_def)
  note fr = adapter_transcribe_frame [OF r]
  define t2 where "t2 = \<lparr>status = Error, text_t = None,
               error = Some (case x of JsError m \<Rightarrow> m | JsOther \<Rightarrow> ''Transcription failed''),
               service = ''AssemblyAI'', jobId = None, startedAt = Some (now w2),
               completedAt = None\<rparr>"
  define w3 where "w3 = snd (recordingsUpdate (id_r recording) t2 w2)"
  have s2: "db w2 (id_r recording) = Some (stored\<lparr>transcription := Some t1\<rparr>)"
    using fr w1f by simp
  have n3: "now w3 = now w2"
    using s2 by (simp add: w3_def recordingsUpdate_Some)
  have "transcribe net recording options w = (Returned None, w3)"
    using a u1 r s2
    by (simp add: transcribe_def monad_defs adapter_name_def t1_def [symmetric] t2_def w3_def
        result_def recordingsUpdate_Some)
  moreover have "writes w3 = writes w @ [(id_r recording, t1), (id_r recording, t2)]"
    using s2 fr w1f by (simp add: w3_def recordingsUpdate_Some)
  moreover have "db w3 (id_r recording) = Some (stored\<lparr>transcription := Some t2\<rparr>)"
    using s2 by (simp add: w3_def recordingsUpdate_Some)
  moreover have "sleeps w3 = sleeps w"
    using s2 fr w1f by (simp add: w3_def recordingsUpdate_Some)
  ultimately show ?thesis unfolding t1_def t2_def n3 [symmetric] by blast
qed

text \<open>A provider that refuses the key: the stored message is the one of the failed upload.\<close>

theorem transcribe_submission_error_witness:
  "getAdapter example_world = Some ''key''
   \<and> db example_world (id_r example_recording) = Some example_recording
   \<and> submit_result unauthorized ''key'' (blob example_recording) None example_world
       = Inl (JsError ''Upload failed: 401 Unauthorized'')
   \<and> (\<exists>w'. transcribe unauthorized example_recording None example_world = (Returned None, w')
     \<and> writes w' = writes example_world @
          [(id_r example_recording, \<lparr>status = Processing, text_t = None, error = None,
               service = ''AssemblyAI'', jobId = None, startedAt = Some (now example_world),
               completedAt = None\<rparr>),
           (id_r example_recording, \<lparr>status = Error, text_t = None,
               error = Some ''Upload failed: 401 Unauthorized'',
               service = ''AssemblyAI'', jobId = None, startedAt = Some (now w'),
               completedAt = None\<rparr>)]
     \<and> db w' (id_r example_recording) = Some (example_recording\<lparr>transcription :=
          Some \<lparr>status = Error, text_t = None,
                error = Some ''Upload failed: 401 Unauthorized'',
                service = ''AssemblyAI'', jobId = None, startedAt = Some (now w'),
                completedAt = None\<rparr>\<rparr>))"
proof -
  have 1: "getAdapter example_world = Some ''key''"
    by (simp add: getAdapter_def example_defs)
  have 2: "db example_world (id_r example_recording) = Some example_recording"
    by (simp add: example_defs)
  have 3: "submit_result unauthorized ''key'' (blob example_recording) None example_world
       = Inl (JsError ''Upload failed: 401 Unauthorized'')"
    by (simp add: submit_result_def uploadFile_def fetch_upload_def example_defs
        string_of_nat.simps digit_char_def)
  from transcribe_submission_error [OF 1 2 3] obtain w' where
    "transcribe unauthorized example_recording None example_world = (Returned None, w')"
    "writes w' = writes example_world @
          [(id_r example_recording, \<lparr>status = Processing, text_t = None, error = None,
               service = ''AssemblyAI'', jobId = None, startedAt = Some (now example_world),
               completedAt = None\<rparr>),
           (id_r example_recording, \<lparr>status = Error, text_t = None,
               error = Some ''Upload failed: 401 Unauthorized'',
               service = ''AssemblyAI'', jobId = None, startedAt = Some (now w'),
               completedAt = None\<rparr>)]"
    "db w' (id_r example_recording) = Some (example_recording\<lparr>transcription :=
          Some \<lparr>status = Error, text_t = None,
                error = Some ''Upload failed: 401 Unauthorized'',
                service = ''AssemblyAI'', jobId = None, startedAt = Some (now w'),
                completedAt = None\<rparr>\<rparr>)"
    by auto
  with 1 2 3 show ?thesis by blast
qed

text \<open>
  The claim as stated fails: with the network down the upload fails, and the stored status
  is processing after the first write of \<^verbatim>\<open>transcribe\<close>.
\<close>

theorem submission_error_passes_through_processing:
  "submit_result offline ''key'' (blob example_recording) None example_world
     = Inl (JsError ''Failed to fetch'')
   \<and> map (\<lambda>(i, t). (status t, error t))
        (writes (snd (transcribe offline example_recording None example_world)))
      = [(Processing, None), (Error, Some ''Failed to fetch'')]"
  by (simp add: submit_result_def transcribe_def run_defs example_defs)

section \<open>The polling loop\<close>

text \<open>
  C3. The polling loop terminates after at most 120 poll requests. When an adapter is
  available, the job has an id, the recording is in the store and the provider's answers
  to all 120 polls are non-terminal, the loop makes exactly 120 polls, waits 5000 ms after
  each, then writes the job with status error and the message
  "Transcription polling timed out", which is what the store holds at the end.
\<close>

theorem pollUntilComplete_bounded:
  "length (fetches (snd (pollUntilComplete net recording w))) \<le> length (fetches w) + 120
   \<and> (getAdapter w = Some apiKey \<and> transcription recording = Some t \<and> jobId t = Some j
        \<and> j \<noteq> [] \<and> db w (id_r recording) = Some stored
        \<and> (\<forall>k < 120. nonterminal_reply
               (transcript_endpoint net (length (fetches w) + k) (GetTranscript apiKey j)))
      \<longrightarrow> (\<exists>w'. pollUntilComplete net recording w = (Returned (), w')
            \<and> fetches w' = fetches w @ replicate 120 (GetTranscript apiKey j)
            \<and> sleeps w' = sleeps w @ replicate 120 5000
            \<and> last (writes w') =
                 (id_r recording,
                  t\<lparr>status := Error, error := Some ''Transcription polling timed out''\<rparr>)
            \<and> db w' (id_r recording) = Some (stored\<lparr>transcription :=
                 Some (t\<lparr>status := Error, error := Some ''Transcription polling timed out''\<rparr>)\<rparr>)))"
proof (intro conjI impI)
  show "length (fetches (snd (pollUntilComplete net recording w))) \<le> length (fetches w) + 120"
    using pollUntilComplete_fetches [of net recording w] by (simp add: maxAttempts_def)
next
  assume a: "getAdapter w = Some apiKey \<and> transcription recording = Some t \<and> jobId t = Some j
        \<and> j \<noteq> [] \<and> db w (id_r recording) = Some stored
        \<and> (\<forall>k < 120. nonterminal_reply
               (transcript_endpoint net (length (fetches w) + k) (GetTranscript apiKey j)))"
  then have e: "pollUntilComplete net recording w = poll_loop net apiKey recording t j 0 w"
    by (simp add: pollUntilComplete_def)
  have "120 = maxAttempts - 0" "0 \<le> maxAttempts" by (simp_all add: maxAttempts_def)
  from poll_loop_timeout [OF this, of w recording stored net apiKey j t] a e
  show "\<exists>w'. pollUntilComplete net recording w = (Returned (), w')
            \<and> fetches w' = fetches w @ replicate 120 (GetTranscript apiKey j)
            \<and> sleeps w' = sleeps w @ replicate 120 5000
            \<and> last (writes w') =
                 (id_r recording,
                  t\<lparr>status := Error, error := Some ''Transcription polling timed out''\<rparr>)
            \<and> db w' (id_r recording) = Some (stored\<lparr>transcription :=
                 Some (t\<lparr>status := Error, error := Some ''Transcription polling timed out''\<rparr>)\<rparr>)"
    by simp
qed

theorem pollUntilComplete_bounded_witness:
  "getAdapter processing_world = Some ''key'' \<and> transcription processing_recording = Some example_job
   \<and> jobId example_job = Some ''j1'' \<and> ''j1'' \<noteq> []
   \<and> db processing_world (id_r processing_recording) = Some processing_recording
   \<and> list_all (\<lambda>k. nonterminal_reply
             (transcript_endpoint always_processing (length (fetches processing_world) + k)
                (GetTranscript ''key'' ''j1''))) [0..<120]
   \<and> (\<exists>w'. pollUntilComplete always_processing processing_recording processing_world = (Returned (), w')
        \<and> fetches w' = fetches processing_world @ replicate 120 (GetTranscript ''key'' ''j1'')
        \<and> sleeps w' = sleeps processing_world @ replicate 120 5000
        \<and> last (writes w') =
             (id_r processing_recording,
              example_job\<lparr>status := Error, error := Some ''Transcription polling timed out''\<rparr>)
        \<and> db w' (id_r processing_recording) = Some (processing_recording\<lparr>transcription :=
             Some (example_job\<lparr>status := Error, error := Some ''Transcription polling timed out''\<rparr>)\<rparr>))"
proof -
  have h: "getAdapter processing_world = Some ''key'' \<and> transcription processing_recording = Some example_job
      \<and> jobId example_job = Some ''j1'' \<and> ''j1'' \<noteq> []
      \<and> db processing_world (id_r processing_recording) = Some processing_recording
      \<and> (\<forall>k < 120. nonterminal_reply
             (transcript_endpoint always_processing (length (fetches processing_world) + k)
                (GetTranscript ''key'' ''j1'')))"
    by (simp add: getAdapter_def nonterminal_reply_def mapStatus_def example_defs)
  then have l: "list_all (\<lambda>k. nonterminal_reply
             (transcript_endpoint always_processing (length (fetches processing_world) + k)
                (GetTranscript ''key'' ''j1''))) [0..<120]"
    by (simp add: list_all_iff)
  from pollUntilComplete_bounded [of always_processing processing_recording processing_world
      "''key''" example_job "''j1''" processing_recording] h l
  show ?thesis by blast
qed

section \<open>Resuming after a reload\<close>

text \<open>
  C4. For a recording in the store whose job has status processing or pending, a job id
  and a startedAt more than 10 minutes before the current time, \<^verbatim>\<open>resumePolling\<close>
  returns at once: its only effect is one write that sets the status to error with the
  message "Transcription timed out (10 minutes)", which contains "timed out"; it sends no
  request and waits for no timer.
\<close>

theorem resumePolling_expires_stale_job:
  assumes "transcription recording = Some t"
    and "status t = Processing \<or> status t = Pending"
    and "jobId t = Some j" and "j \<noteq> []"
    and "startedAt t = Some started"
    and "now w - started > 10 * 60 * 1000"
    and "db w (id_r recording) = Some stored"
  shows "\<exists>w'. resumePolling net recording w = (Returned (), w')
     \<and> fetches w' = fetches w \<and> sleeps w' = sleeps w \<and> now w' = now w
     \<and> writes w' = writes w @
          [(id_r recording, t\<lparr>status := Error, error := Some ''Transcription timed out (10 minutes)''\<rparr>)]
     \<and> db w' (id_r recording) = Some (stored\<lparr>transcription :=
          Some (t\<lparr>status := Error, error := Some ''Transcription timed out (10 minutes)''\<rparr>)\<rparr>)
     \<and> recordings w' = map (\<lambda>r. if id_r r = id_r recording
          then r\<lparr>transcription :=
            Some (t\<lparr>status := Error, error := Some ''Transcription timed out (10 minutes)''\<rparr>)\<rparr>
          else r) (recordings w)
     \<and> ''Transcription timed out (10 minutes)'' = ''Transcription '' @ ''timed out'' @ '' (10 minutes)''"
  using assms
  by (auto simp: resumePolling_def truthy_def timeoutMs_def recordingsUpdate_def Let_def)

theorem resumePolling_expires_stale_job_witness:
  "transcription processing_recording = Some example_job
   \<and> (status example_job = Processing \<or> status example_job = Pending)
   \<and> jobId example_job = Some ''j1'' \<and> ''j1'' \<noteq> []
   \<and> startedAt example_job = Some 1000000
   \<and> now processing_world - 1000000 > 10 * 60 * 1000
   \<and> db processing_world (id_r processing_recording) = Some processing_recording
   \<and> (\<exists>w'. resumePolling offline processing_recording processing_world = (Returned (), w')
        \<and> fetches w' = fetches processing_world
        \<and> writes w' = writes processing_world @
             [(id_r processing_recording,
               example_job\<lparr>status := Error, error := Some ''Transcription timed out (10 minutes)''\<rparr>)])"
proof -
  have 1: "transcription processing_recording = Some example_job"
    and 2: "status example_job = Processing \<or> status example_job = Pending"
    and 3: "jobId example_job = Some ''j1''" and 4: "''j1'' \<noteq> []"
    and 5: "startedAt example_job = Some 1000000"
    and 6: "now processing_world - 1000000 > 10 * 60 * 1000"
    and 7: "db processing_world (id_r processing_recording) = Some processing_recording"
    by (simp_all add: example_defs)
  from resumePolling_expires_stale_job [OF 1 2 3 4 5 6 7, of offline] 1 2 3 4 5 6 7
  show ?thesis by blast
qed

text \<open>
  C10. For a recording whose job has status processing or pending and a job id but no
  startedAt, \<^verbatim>\<open>resumePolling\<close> makes no timeout check: whatever the current time, it does
  exactly what \<^verbatim>\<open>pollUntilComplete\<close> does, and with an adapter available that is the
  polling loop from attempt 0, which sends at least one poll.
\<close>

theorem resumePolling_without_startedAt:
  assumes "transcription recording = Some t"
    and "status t = Processing \<or> status t = Pending"
    and "jobId t = Some j" and "j \<noteq> []"
    and "startedAt t = None"
  shows "resumePolling net recording w = pollUntilComplete net recording w
     \<and> (getAdapter w = Some apiKey \<longrightarrow>
          resumePolling net recording w = poll_loop net apiKey recording t j 0 w
          \<and> (\<exists>n. 1 \<le> n \<and> n \<le> 120
                \<and> fetches (snd (resumePolling net recording w))
                    = fetches w @ replicate n (GetTranscript apiKey j)))"
proof -
  have 1: "resumePolling net recording w = pollUntilComplete net recording w"
    using assms by (auto simp: resumePolling_def truthy_def)
  have 2: "pollUntilComplete net recording w = poll_loop net apiKey recording t j 0 w"
    if "getAdapter w = Some apiKey"
    using that assms by (simp add: pollUntilComplete_def)
  have 3: "\<exists>n. 1 \<le> n \<and> n \<le> 120
                \<and> fetches (snd (poll_loop net apiKey recording t j 0 w))
                    = fetches w @ replicate n (GetTranscript apiKey j)"
    using poll_loop_effects [of net apiKey recording t j 0 w]
    by (auto simp: maxAttempts_def)
  show ?thesis using 1 2 3 by simp
qed

theorem resumePolling_without_startedAt_witness:
  "transcription (processing_recording\<lparr>transcription := Some (example_job\<lparr>startedAt := None\<rparr>)\<rparr>)
     = Some (example_job\<lparr>startedAt := None\<rparr>)
   \<and> (status (example_job\<lparr>startedAt := None\<rparr>) = Processing
        \<or> status (example_job\<lparr>startedAt := None\<rparr>) = Pending)
   \<and> jobId (example_job\<lparr>startedAt := None\<rparr>) = Some ''j1'' \<and> ''j1'' \<noteq> []
   \<and> startedAt (example_job\<lparr>startedAt := None\<rparr>) = None
   \<and> getAdapter processing_world = Some ''key''
   \<and> resumePolling always_processing
        (processing_recording\<lparr>transcription := Some (example_job\<lparr>startedAt := None\<rparr>)\<rparr>)
        processing_world
      = pollUntilComplete always_processing
        (processing_recording\<lparr>transcription := Some (example_job\<lparr>startedAt := None\<rparr>)\<rparr>)
        processing_world
   \<and> (\<exists>n. 1 \<le> n \<and> n \<le> 120
        \<and> fetches (snd (resumePolling always_processing
             (processing_recording\<lparr>transcription := Some (example_job\<lparr>startedAt := None\<rparr>)\<rparr>)
             processing_world))
           = fetches processing_world @ replicate n (GetTranscript ''key'' ''j1''))"
proof -
  have 1: "transcription (processing_recording\<lparr>transcription := Some (example_job\<lparr>startedAt := None\<rparr>)\<rparr>)
     = Some (example_job\<lparr>startedAt := None\<rparr>)"
    and 2: "status (example_job\<lparr>startedAt := None\<rparr>) = Processing
        \<or> status (example_job\<lparr>startedAt := None\<rparr>) = Pending"
    and 3: "jobId (example_job\<lparr>startedAt := None\<rparr>) = Some ''j1''" and 4: "''j1'' \<noteq> []"
    and 5: "startedAt (example_job\<lparr>startedAt := None\<rparr>) = None"
    by (simp_all add: example_defs)
  have 6: "getAdapter processing_world = Some ''key''"
    by (simp add: getAdapter_def example_defs)
  from resumePolling_without_startedAt [OF 1 2 3 4 5, of always_processing processing_world "''key''"]
    1 2 3 4 5 6
  show ?thesis by blast
qed

section \<open>The bulk clear\<close>

text \<open>
  C5. On a store whose ids are unique and whose in-memory list mirrors the object store,
  \<^verbatim>\<open>clearAllInProgressTranscriptions\<close> sets the status to error (message
  "Cleared by user") on exactly the records whose job is processing or pending, leaves
  every other record as it is, in both stores, and returns the number of records it
  changed, which is also the number of writes it made. The store is well formed again
  afterwards.
\<close>

theorem clearAll_exact:
  assumes "store_ok w"
  shows "\<exists>w'. clearAllInProgressTranscriptions w
           = (Returned (length (filter in_progress (recordings w))), w')
     \<and> recordings w' = map cleared_by_user (recordings w)
     \<and> (\<forall>i. db w' i = map_option cleared_by_user (db w i))
     \<and> length (filter (\<lambda>r. cleared_by_user r \<noteq> r) (recordings w))
         = length (filter in_progress (recordings w))
     \<and> length (writes w') = length (writes w) + length (filter in_progress (recordings w))
     \<and> fetches w' = fetches w \<and> settings w' = settings w \<and> now w' = now w
     \<and> store_ok w'"
proof -
  have d: "distinct (map id_r (recordings w))"
    and s: "\<forall>r \<in> set (recordings w). db w (id_r r) = Some r"
    and k: "dom (db w) = id_r ` set (recordings w)"
    using assms by (simp_all add: store_ok_def)
  have pre: "\<forall>r \<in> set (recordings w). in_progress r \<longrightarrow> db w (id_r r) \<noteq> None"
    using s by simp
  from clearAll_loop_result [OF d pre, of 0] obtain w' where
    r1: "clearAll_loop (recordings w) 0 w = (Returned (length (filter in_progress (recordings w))), w')"
    and r2: "recordings w' = map (\<lambda>x. clear_with (recordings w) (id_r x) x) (recordings w)"
    and r3: "\<forall>i. db w' i = map_option (clear_with (recordings w) i) (db w i)"
    and r4: "length (writes w') = length (writes w) + length (filter in_progress (recordings w))"
    and r5: "fetches w' = fetches w" "settings w' = settings w" "now w' = now w"
    by auto
  have cw: "clear_with (recordings w) (id_r x) x = cleared_by_user x" if "x \<in> set (recordings w)" for x
  proof (cases "in_progress x")
    case True
    then obtain t where "transcription x = Some t" "status t = Processing \<or> status t = Pending"
      by (auto simp: in_progress_def split: option.splits)
    with True show ?thesis
      by (simp add: clear_with_def find_distinct [OF d that] cleared_by_user_def)
  next
    case False
    then have "cleared_by_user x = x"
      using cleared_by_user_changes [of x] by simp
    with False show ?thesis
      by (simp add: clear_with_def find_distinct [OF d that])
  qed
  have m: "recordings w' = map cleared_by_user (recordings w)"
    unfolding r2 by (rule map_cong) (simp_all add: cw)
  have dbm: "db w' i = map_option cleared_by_user (db w i)" for i
  proof (cases "db w i")
    case None
    with r3 show ?thesis by simp
  next
    case (Some x)
    then have "i \<in> id_r ` set (recordings w)" using k by auto
    then obtain y where y: "y \<in> set (recordings w)" "i = id_r y" by auto
    with s Some have "x = y" by simp
    with y Some r3 cw [of x] show ?thesis by simp
  qed
  have c: "filter (\<lambda>r. cleared_by_user r \<noteq> r) (recordings w) = filter in_progress (recordings w)"
    by (simp add: cleared_by_user_changes)
  have ok: "store_ok w'"
    by (rule store_ok_cleared [OF assms m]) (simp add: dbm)
  show ?thesis
    using r1 m dbm r4 r5 c ok by (simp add: clearAllInProgressTranscriptions_def)
qed

theorem clearAll_exact_witness:
  "store_ok library_world
   \<and> (\<exists>w'. clearAllInProgressTranscriptions library_world = (Returned 1, w')
        \<and> recordings w' = map cleared_by_user (recordings library_world))"
  using clearAll_exact [OF library_store_ok] library_store_ok library_count by auto

section \<open>Merging poll results\<close>

text \<open>
  C6, as the code has it. With an adapter available, the recording passed in carrying a
  job id and the recording in the store, \<^verbatim>\<open>checkStatus\<close> sends one poll and makes one
  write, and the polling loop sends \<open>n\<close> polls, \<open>1 \<le> n \<le> 120\<close>, of which only the last
  may have a terminal result, and makes one write after each (followed by the write of
  "Transcription polling timed out" when the 120th result is not terminal either). Each
  of these writes is the merge of the poll result just received (what the adapter's
  \<^verbatim>\<open>checkStatus\<close> makes of the reply) into the transcription \<open>t\<close> of the recording that was
  passed in: status and error of the poll result, service, job id and startedAt of \<open>t\<close>,
  the text of the poll result when it is not empty and the text of \<open>t\<close> otherwise, and
  completedAt set to the time of the write exactly when the status is completed. So every
  write goes to the recording passed in and keeps the service, the job id and the
  startedAt of its transcription. The stored record is the one that was stored before
  with its transcription replaced by the last write.
\<close>

theorem poll_writes_merge_snapshot:
  assumes "getAdapter w = Some apiKey" "transcription recording = Some t"
    and "jobId t = Some j" "j \<noteq> []"
    and "db w (id_r recording) = Some stored"
  shows "(\<exists>w'. checkStatus net recording w = (Returned (), w')
        \<and> fetches w' = fetches w @ [GetTranscript apiKey j]
        \<and> writes w' = writes w @
             [(id_r recording, merged_job t (poll_reply net apiKey j w 0) (now w'))]
        \<and> list_all (\<lambda>(i, t'). i = id_r recording \<and> service t' = service t
                       \<and> jobId t' = jobId t \<and> startedAt t' = startedAt t)
             (drop (length (writes w)) (writes w'))
        \<and> db w' = (db w)(id_r recording \<mapsto> stored\<lparr>transcription :=
             Some (merged_job t (poll_reply net apiKey j w 0) (now w'))\<rparr>))
   \<and> (\<exists>n w'. pollUntilComplete net recording w = (Returned (), w')
        \<and> 0 < n \<and> n \<le> maxAttempts
        \<and> fetches w' = fetches w @ replicate n (GetTranscript apiKey j)
        \<and> list_all (\<lambda>k. \<not> terminal (poll_reply net apiKey j w k)) [0..<n - 1]
        \<and> (terminal (poll_reply net apiKey j w (n - 1))
             \<and> writes w' = writes w @
                  map (\<lambda>k. (id_r recording, merged_job t (poll_reply net apiKey j w k) (now w')))
                    [0..<n]
           \<or> n = maxAttempts \<and> \<not> terminal (poll_reply net apiKey j w (n - 1))
             \<and> writes w' = writes w @
                  map (\<lambda>k. (id_r recording, merged_job t (poll_reply net apiKey j w k) (now w')))
                    [0..<n]
                  @ [(id_r recording,
                      t\<lparr>status := Error, error := Some ''Transcription polling timed out''\<rparr>)])
        \<and> list_all (\<lambda>(i, t'). i = id_r recording \<and> service t' = service t
                       \<and> jobId t' = jobId t \<and> startedAt t' = startedAt t)
             (drop (length (writes w)) (writes w'))
        \<and> db w' = (db w)(id_r recording \<mapsto>
             stored\<lparr>transcription := Some (snd (last (writes w')))\<rparr>))
   \<and> (\<forall>w0. fst (adapter_checkStatus net apiKey j w0)
          = Returned (status_of_reply
              (transcript_endpoint net (length (fetches w0)) (GetTranscript apiKey j))))"
proof -
  let ?st = "poll_reply net apiKey j w"
  let ?kept = "\<lambda>(i, t'). i = id_r recording \<and> service t' = service t
                       \<and> jobId t' = jobId t \<and> startedAt t' = startedAt t"
  have k: "?kept (id_r recording, merged_job t st d)" for st d
    by (simp add: merged_job_def)
  have ks: "list_all ?kept (map (\<lambda>k. (id_r recording, merged_job t (?st k) d)) [0..<n])" for d n
    unfolding list_all_iff using k by auto
  from checkStatus_reply [OF assms, of net] obtain w1 where
    c: "checkStatus net recording w = (Returned (), w1)"
    "fetches w1 = fetches w @ [GetTranscript apiKey j]"
    "writes w1 = writes w @ [(id_r recording, merged_job t (?st 0) (now w1))]"
    "db w1 = (db w)(id_r recording \<mapsto> stored\<lparr>transcription :=
             Some (merged_job t (?st 0) (now w1))\<rparr>)"
    by blast
  have "list_all ?kept (drop (length (writes w)) (writes w1))"
    unfolding c(3) using k by simp
  with c have A: "\<exists>w'. checkStatus net recording w = (Returned (), w')
        \<and> fetches w' = fetches w @ [GetTranscript apiKey j]
        \<and> writes w' = writes w @
             [(id_r recording, merged_job t (poll_reply net apiKey j w 0) (now w'))]
        \<and> list_all ?kept (drop (length (writes w)) (writes w'))
        \<and> db w' = (db w)(id_r recording \<mapsto> stored\<lparr>transcription :=
             Some (merged_job t (poll_reply net apiKey j w 0) (now w'))\<rparr>)"
    by blast
  from pollUntilComplete_writes [OF assms, of net] obtain n w2 where
    run: "pollUntilComplete net recording w = (Returned (), w2)"
    and n: "0 < n" "n \<le> maxAttempts"
    and f: "fetches w2 = fetches w @ replicate n (GetTranscript apiKey j)"
    and nt: "list_all (\<lambda>k. \<not> terminal (?st k)) [0..<n - 1]"
    and alt: "terminal (?st (n - 1))
             \<and> writes w2 = writes w @
                  map (\<lambda>k. (id_r recording, merged_job t (?st k) (now w2))) [0..<n]
           \<or> n = maxAttempts \<and> \<not> terminal (?st (n - 1))
             \<and> writes w2 = writes w @
                  map (\<lambda>k. (id_r recording, merged_job t (?st k) (now w2))) [0..<n]
                  @ [(id_r recording,
                      t\<lparr>status := Error, error := Some ''Transcription polling timed out''\<rparr>)]"
    and d: "db w2 = (db w)(id_r recording \<mapsto>
             stored\<lparr>transcription := Some (snd (last (writes w2)))\<rparr>)"
    by blast
  from alt have kept: "list_all ?kept (drop (length (writes w)) (writes w2))"
  proof
    assume "terminal (?st (n - 1))
             \<and> writes w2 = writes w @
                  map (\<lambda>k. (id_r recording, merged_job t (?st k) (now w2))) [0..<n]"
    then have "drop (length (writes w)) (writes w2)
        = map (\<lambda>k. (id_r recording, merged_job t (?st k) (now w2))) [0..<n]"
      by simp
    then show ?thesis using ks by simp
  next
    assume "n = maxAttempts \<and> \<not> terminal (?st (n - 1))
             \<and> writes w2 = writes w @
                  map (\<lambda>k. (id_r recording, merged_job t (?st k) (now w2))) [0..<n]
                  @ [(id_r recording,
                      t\<lparr>status := Error, error := Some ''Transcription polling timed out''\<rparr>)]"
    then have "drop (length (writes w)) (writes w2)
        = map (\<lambda>k. (id_r recording, merged_job t (?st k) (now w2))) [0..<n]
                  @ [(id_r recording,
                      t\<lparr>status := Error, error := Some ''Transcription polling timed out''\<rparr>)]"
      by simp
    then show ?thesis using ks by simp
  qed
  from run n f nt alt kept d have B: "\<exists>n w'. pollUntilComplete net recording w = (Returned (), w')
        \<and> 0 < n \<and> n \<le> maxAttempts
        \<and> fetches w' = fetches w @ replicate n (GetTranscript apiKey j)
        \<and> list_all (\<lambda>k. \<not> terminal (poll_reply net apiKey j w k)) [0..<n - 1]
        \<and> (terminal (poll_reply net apiKey j w (n - 1))
             \<and> writes w' = writes w @
                  map (\<lambda>k. (id_r recording, merged_job t (poll_reply net apiKey j w k) (now w')))
                    [0..<n]
           \<or> n = maxAttempts \<and> \<not> terminal (poll_reply net apiKey j w (n - 1))
             \<and> writes w' = writes w @
                  map (\<lambda>k. (id_r recording, merged_job t (poll_reply net apiKey j w k) (now w')))
                    [0..<n]
                  @ [(id_r recording,
                      t\<lparr>status := Error, error := Some ''Transcription polling timed out''\<rparr>)])
        \<and> list_all ?kept (drop (length (writes w)) (writes w'))
        \<and> db w' = (db w)(id_r recording \<mapsto>
             stored\<lparr>transcription := Some (snd (last (writes w')))\<rparr>)"
    by blast
  have C: "\<forall>w0. fst (adapter_checkStatus net apiKey j w0)
          = Returned (status_of_reply
              (transcript_endpoint net (length (fetches w0)) (GetTranscript apiKey j)))"
    by (simp add: adapter_checkStatus_reply)
  from A B C show ?thesis by (intro conjI)
qed

text \<open>
  Two polls: the first reports processing with the text "hello", the second completed
  without a text.
\<close>

theorem poll_writes_merge_snapshot_witness:
  "getAdapter processing_world = Some ''key''
   \<and> transcription processing_recording = Some example_job
   \<and> jobId example_job = Some ''j1''
   \<and> db processing_world (id_r processing_recording) = Some processing_recording
   \<and> (\<exists>w'. checkStatus partial_then_done processing_recording processing_world = (Returned (), w')
        \<and> fetches w' = [GetTranscript ''key'' ''j1'']
        \<and> writes w' =
             [(''rec-1'', \<lparr>status = Processing, text_t = Some ''hello'', error = None,
                 service = ''AssemblyAI'', jobId = Some ''j1'', startedAt = Some 1000000,
                 completedAt = None\<rparr>)])
   \<and> (\<exists>w'. pollUntilComplete partial_then_done processing_recording processing_world
              = (Returned (), w')
        \<and> fetches w' = [GetTranscript ''key'' ''j1'', GetTranscript ''key'' ''j1'']
        \<and> writes w' =
             [(''rec-1'', \<lparr>status = Processing, text_t = Some ''hello'', error = None,
                 service = ''AssemblyAI'', jobId = Some ''j1'', startedAt = Some 1000000,
                 completedAt = None\<rparr>),
              (''rec-1'', \<lparr>status = Completed, text_t = None, error = None,
                 service = ''AssemblyAI'', jobId = Some ''j1'', startedAt = Some 1000000,
                 completedAt = Some (now w')\<rparr>)]
        \<and> db w' ''rec-1'' = Some (processing_recording\<lparr>transcription :=
             Some \<lparr>status = Completed, text_t = None, error = None,
                   service = ''AssemblyAI'', jobId = Some ''j1'', startedAt = Some 1000000,
                   completedAt = Some (now w')\<rparr>\<rparr>))"
proof -
  let ?st = "poll_reply partial_then_done ''key'' ''j1'' processing_world"
  have 1: "getAdapter processing_world = Some ''key''"
    by (simp add: getAdapter_def example_defs)
  have 2: "transcription processing_recording = Some example_job"
    by (simp add: example_defs)
  have 3: "jobId example_job = Some ''j1''" and 4: "''j1'' \<noteq> []"
    by (simp_all add: example_defs)
  have 5: "db processing_world (id_r processing_recording) = Some processing_recording"
    by (simp add: example_defs)
  have i: "id_r processing_recording = ''rec-1''" and e: "writes processing_world = []"
    "fetches processing_world = []"
    by (simp_all add: example_defs)
  have m0: "merged_job example_job (?st 0) d =
      \<lparr>status = Processing, text_t = Some ''hello'', error = None,
       service = ''AssemblyAI'', jobId = Some ''j1'', startedAt = Some 1000000,
       completedAt = None\<rparr>" for d
    by (simp add: example_poll_replies merged_job_def example_job_def)
  have m1: "merged_job example_job (?st (Suc 0)) d =
      \<lparr>status = Completed, text_t = None, error = None,
       service = ''AssemblyAI'', jobId = Some ''j1'', startedAt = Some 1000000,
       completedAt = Some d\<rparr>" for d
    by (simp add: example_poll_replies merged_job_def example_job_def)
  have t0: "\<not> terminal (?st 0)" and t1: "terminal (?st (Suc 0))"
    by (simp_all add: example_poll_replies terminal_def)
  note inst = poll_writes_merge_snapshot [OF 1 2 3 4 5, of partial_then_done]
  from inst obtain w1 where
    c: "checkStatus partial_then_done processing_recording processing_world = (Returned (), w1)"
    "fetches w1 = [GetTranscript ''key'' ''j1'']"
    "writes w1 =
             [(''rec-1'', \<lparr>status = Processing, text_t = Some ''hello'', error = None,
                 service = ''AssemblyAI'', jobId = Some ''j1'', startedAt = Some 1000000,
                 completedAt = None\<rparr>)]"
    unfolding i e m0 by auto
  from inst obtain n w2 where
    run: "pollUntilComplete partial_then_done processing_recording processing_world
            = (Returned (), w2)"
    and pos: "0 < n"
    and f: "fetches w2 = replicate n (GetTranscript ''key'' ''j1'')"
    and nt: "list_all (\<lambda>k. \<not> terminal (?st k)) [0..<n - 1]"
    and alt: "terminal (?st (n - 1))
             \<and> writes w2 = map (\<lambda>k. (''rec-1'', merged_job example_job (?st k) (now w2))) [0..<n]
           \<or> n = maxAttempts \<and> \<not> terminal (?st (n - 1))
             \<and> writes w2 = map (\<lambda>k. (''rec-1'', merged_job example_job (?st k) (now w2))) [0..<n]
                  @ [(''rec-1'', example_job\<lparr>status := Error,
                        error := Some ''Transcription polling timed out''\<rparr>)]"
    and d: "db w2 = (db processing_world)(''rec-1'' \<mapsto>
             processing_recording\<lparr>transcription := Some (snd (last (writes w2)))\<rparr>)"
    unfolding i e by auto
  have "n - 1 \<le> 1"
  proof (rule ccontr)
    assume "\<not> n - 1 \<le> 1"
    then have "Suc 0 \<in> set [0..<n - 1]" by simp
    with nt have "\<not> terminal (?st (Suc 0))" unfolding list_all_iff by blast
    with t1 show False by simp
  qed
  moreover have "n \<noteq> 1"
  proof
    assume "n = 1"
    with alt t0 show False by (simp add: maxAttempts_def)
  qed
  ultimately have n: "n = Suc (Suc 0)" using pos by arith
  from alt have w: "writes w2 = [(''rec-1'', merged_job example_job (?st 0) (now w2)),
      (''rec-1'', merged_job example_job (?st (Suc 0)) (now w2))]"
    unfolding n by (simp add: maxAttempts_def)
  have 6: "fetches w2 = [GetTranscript ''key'' ''j1'', GetTranscript ''key'' ''j1'']"
    using f unfolding n by simp
  have 7: "writes w2 =
             [(''rec-1'', \<lparr>status = Processing, text_t = Some ''hello'', error = None,
                 service = ''AssemblyAI'', jobId = Some ''j1'', startedAt = Some 1000000,
                 completedAt = None\<rparr>),
              (''rec-1'', \<lparr>status = Completed, text_t = None, error = None,
                 service = ''AssemblyAI'', jobId = Some ''j1'', startedAt = Some 1000000,
                 completedAt = Some (now w2)\<rparr>)]"
    using w unfolding m0 m1 .
  have 8: "db w2 ''rec-1'' = Some (processing_recording\<lparr>transcription :=
             Some \<lparr>status = Completed, text_t = None, error = None,
                   service = ''AssemblyAI'', jobId = Some ''j1'', startedAt = Some 1000000,
                   completedAt = Some (now w2)\<rparr>\<rparr>)"
    unfolding d 7 by simp
  from c have A: "\<exists>w'. checkStatus partial_then_done processing_recording processing_world = (Returned (), w')
        \<and> fetches w' = [GetTranscript ''key'' ''j1'']
        \<and> writes w' =
             [(''rec-1'', \<lparr>status = Processing, text_t = Some ''hello'', error = None,
                 service = ''AssemblyAI'', jobId = Some ''j1'', startedAt = Some 1000000,
                 completedAt = None\<rparr>)]"
    by blast
  from run 6 7 8 have B: "\<exists>w'. pollUntilComplete partial_then_done processing_recording processing_world
              = (Returned (), w')
        \<and> fetches w' = [GetTranscript ''key'' ''j1'', GetTranscript ''key'' ''j1'']
        \<and> writes w' =
             [(''rec-1'', \<lparr>status = Processing, text_t = Some ''hello'', error = None,
                 service = ''AssemblyAI'', jobId = Some ''j1'', startedAt = Some 1000000,
                 completedAt = None\<rparr>),
              (''rec-1'', \<lparr>status = Completed, text_t = None, error = None,
                 service = ''AssemblyAI'', jobId = Some ''j1'', startedAt = Some 1000000,
                 completedAt = Some (now w')\<rparr>)]
        \<and> db w' ''rec-1'' = Some (processing_recording\<lparr>transcription :=
             Some \<lparr>status = Completed, text_t = None, error = None,
                   service = ''AssemblyAI'', jobId = Some ''j1'', startedAt = Some 1000000,
                   completedAt = Some (now w')\<rparr>\<rparr>)"
    by blast
  from 1 2 3 5 A B show ?thesis by (intro conjI)
qed

text \<open>
  The claim as stated fails, twice. The first poll persists the text "hello", the second
  poll carries no text, and the second write stores no text: the text is taken from the
  recording passed to the loop, not from what the first poll persisted. And when the
  stored job has been replaced since the loop was started (a retry, job \<open>j2\<close>), the write
  of the loop puts the job id of the recording it was passed (\<open>j1\<close>) in its place: the
  service and the job id that are kept are those of the recording passed in, not the
  stored ones.
\<close>

theorem text_of_earlier_poll_lost:
  "map (\<lambda>(i, t). (status t, text_t t))
       (writes (snd (pollUntilComplete partial_then_done processing_recording processing_world)))
     = [(Processing, Some ''hello''), (Completed, None)]
   \<and> map_option (map_option jobId \<circ> transcription) (db retried_world ''rec-1'')
     = Some (Some (Some ''j2''))
   \<and> map_option (map_option jobId \<circ> transcription)
       (db (snd (pollUntilComplete partial_then_done processing_recording retried_world)) ''rec-1'')
     = Some (Some (Some ''j1''))"
  by (simp add: run_defs example_defs retried_world_def retried_recording_def)

section \<open>Status mapping\<close>

text \<open>
  C7. The status mapping is total on provider status strings: queued and processing map to
  processing, completed to completed, error to error, and every other string (such as
  banana) maps to pending, never to error.
\<close>

theorem mapStatus_total:
  "mapStatus ''queued'' = Processing \<and> mapStatus ''processing'' = Processing
   \<and> mapStatus ''completed'' = Completed \<and> mapStatus ''error'' = Error
   \<and> mapStatus ''banana'' = Pending
   \<and> (s \<notin> {''queued'', ''processing'', ''completed'', ''error''}
        \<longrightarrow> mapStatus s = Pending \<and> mapStatus s \<noteq> Error)"
  by (simp add: mapStatus_def)

theorem mapStatus_total_witness:
  "''banana'' \<notin> {''queued'', ''processing'', ''completed'', ''error''}
   \<and> mapStatus ''banana'' = Pending \<and> mapStatus ''banana'' \<noteq> Error"
  using mapStatus_total [of "''banana''"] by simp

section \<open>Rendering utterances\<close>

text \<open>
  C8, as the code has it. The adapter renders the utterances in the order in which the
  provider lists them, joined by a line feed; each block is
  \<^verbatim>\<open>[start - end] Speaker label:\<close>, a line feed, the text and a line feed. For offsets
  that are safe integers and not negative, a timestamp is \<^verbatim>\<open>H:MM:SS\<close> from one hour on
  and \<^verbatim>\<open>M:SS\<close> below, with two-digit minutes and seconds, of the value floored to whole
  seconds (0 gives "0:00", 65000 gives "1:05", 3661000 gives "1:01:01"), and the text block is
  the one the specification describes, with the segments in the provider's order; it is in
  the order of the start times whenever the provider's list is.
\<close>

theorem formatUtterances_layout:
  "formatUtterances [] = []
   \<and> formatUtterances (u # us) =
       (if us = [] then utterance_block u else utterance_block u @ newline @ formatUtterances us)
   \<and> utterance_block u =
       ''['' @ formatTimestamp (u_start u) @ '' - '' @ formatTimestamp (u_end u)
       @ ''] Speaker '' @ u_speaker u @ '':'' @ newline @ u_text u @ newline
   \<and> ((\<forall>v \<in> set vs. 0 \<le> Rep_safe_integer (u_start v) \<and> 0 \<le> Rep_safe_integer (u_end v))
        \<longrightarrow> formatUtterances vs = join newline (map segment_text vs))
   \<and> ((\<forall>v \<in> set vs. 0 \<le> Rep_safe_integer (u_start v) \<and> 0 \<le> Rep_safe_integer (u_end v))
        \<and> sorted (map (\<lambda>v. Rep_safe_integer (u_start v)) vs)
        \<longrightarrow> formatUtterances vs = formatUtterances_by_start vs)
   \<and> (0 \<le> Rep_safe_integer ms \<longrightarrow>
        formatTimestamp ms =
          (let s = nat (Rep_safe_integer ms div 1000)
           in if 3600 \<le> s
              then string_of_nat (s div 3600) @ '':'' @ two_digits (s div 60 mod 60) @ '':''
                   @ two_digits (s mod 60)
              else string_of_nat (s div 60) @ '':'' @ two_digits (s mod 60)))
   \<and> formatTimestamp (Abs_safe_integer 0) = ''0:00''
   \<and> formatTimestamp (Abs_safe_integer 65000) = ''1:05''
   \<and> formatTimestamp (Abs_safe_integer 3661000) = ''1:01:01''"
proof (intro conjI impI)
  show "formatUtterances [] = []" by (simp add: formatUtterances_def)
  show "formatUtterances (u # us) =
       (if us = [] then utterance_block u else utterance_block u @ newline @ formatUtterances us)"
    by (rule formatUtterances_Cons)
  show "utterance_block u =
       ''['' @ formatTimestamp (u_start u) @ '' - '' @ formatTimestamp (u_end u)
       @ ''] Speaker '' @ u_speaker u @ '':'' @ newline @ u_text u @ newline"
    by (simp add: utterance_block_def)
  show "formatUtterances vs = join newline (map segment_text vs)"
    if "\<forall>v \<in> set vs. 0 \<le> Rep_safe_integer (u_start v) \<and> 0 \<le> Rep_safe_integer (u_end v)"
    using that by (rule formatUtterances_nonneg)
  show "formatUtterances vs = formatUtterances_by_start vs"
    if "(\<forall>v \<in> set vs. 0 \<le> Rep_safe_integer (u_start v) \<and> 0 \<le> Rep_safe_integer (u_end v))
        \<and> sorted (map (\<lambda>v. Rep_safe_integer (u_start v)) vs)"
    using that by (intro formatUtterances_sorted) simp_all
  show "formatTimestamp ms =
          (let s = nat (Rep_safe_integer ms div 1000)
           in if 3600 \<le> s
              then string_of_nat (s div 3600) @ '':'' @ two_digits (s div 60 mod 60) @ '':''
                   @ two_digits (s mod 60)
              else string_of_nat (s div 60) @ '':'' @ two_digits (s mod 60))"
    if "0 \<le> Rep_safe_integer ms"
    using formatTimestamp_nonneg [OF that] by (simp add: clock_text_def Let_def)
  show "formatTimestamp (Abs_safe_integer 0) = ''0:00''"
    "formatTimestamp (Abs_safe_integer 65000) = ''1:05''"
    "formatTimestamp (Abs_safe_integer 3661000) = ''1:01:01''"
    using formatTimestamp_examples by simp_all
qed

theorem formatUtterances_layout_witness:
  "list_all (\<lambda>v. 0 \<le> Rep_safe_integer (u_start v) \<and> 0 \<le> Rep_safe_integer (u_end v))
     [utterance_early, utterance_late]
   \<and> sorted (map (\<lambda>v. Rep_safe_integer (u_start v)) [utterance_early, utterance_late])
   \<and> 0 \<le> Rep_safe_integer (Abs_safe_integer 3661000)
   \<and> formatUtterances [utterance_early, utterance_late]
       = formatUtterances_by_start [utterance_early, utterance_late]
   \<and> formatUtterances [utterance_early, utterance_late]
       = ''[0:00 - 0:04] Speaker A:'' @ newline @ ''first'' @ newline @ newline
         @ ''[0:05 - 0:06] Speaker B:'' @ newline @ ''second'' @ newline
   \<and> formatTimestamp (Abs_safe_integer 3661000) = ''1:01:01''"
proof -
  have 1: "\<forall>v \<in> set [utterance_early, utterance_late].
      0 \<le> Rep_safe_integer (u_start v) \<and> 0 \<le> Rep_safe_integer (u_end v)"
    by (simp add: utterance_early_def utterance_late_def)
  have 2: "sorted (map (\<lambda>v. Rep_safe_integer (u_start v)) [utterance_early, utterance_late])"
    by (simp add: utterance_early_def utterance_late_def)
  have 3: "0 \<le> Rep_safe_integer (Abs_safe_integer 3661000)" by simp
  have 4: "formatUtterances_by_start [utterance_early, utterance_late]
       = ''[0:00 - 0:04] Speaker A:'' @ newline @ ''first'' @ newline @ newline
         @ ''[0:05 - 0:06] Speaker B:'' @ newline @ ''second'' @ newline"
    by (simp add: formatUtterances_by_start_def segment_text_def whole_seconds_def clock_text_def
        two_digits_def string_of_nat.simps digit_char_def newline_def
        utterance_early_def utterance_late_def)
  note layout = formatUtterances_layout [of utterance_early "[]" "[utterance_early, utterance_late]"
      "Abs_safe_integer 3661000"]
  from layout 1 2 have 5: "formatUtterances [utterance_early, utterance_late]
       = formatUtterances_by_start [utterance_early, utterance_late]"
    by blast
  from layout have 6: "formatTimestamp (Abs_safe_integer 3661000) = ''1:01:01''"
    by blast
  have 7: "list_all (\<lambda>v. 0 \<le> Rep_safe_integer (u_start v) \<and> 0 \<le> Rep_safe_integer (u_end v))
     [utterance_early, utterance_late]"
    using 1 by (simp only: list_all_iff)
  from 7 2 3 5 trans [OF 5 4] 6 show ?thesis by blast
qed

text \<open>
  The claim as stated fails in two ways. When the provider lists a later utterance first,
  the text block has it first, and differs from the block in the order of the start
  times. And a negative offset is not rendered as \<^verbatim>\<open>M:SS\<close>: one second before zero gives
  "-1:-1".
\<close>

theorem utterances_not_sorted_by_start:
  "formatUtterances [utterance_late, utterance_early]
     = ''[0:05 - 0:06] Speaker B:'' @ newline @ ''second'' @ newline @ newline
       @ ''[0:00 - 0:04] Speaker A:'' @ newline @ ''first'' @ newline
   \<and> formatUtterances_by_start [utterance_late, utterance_early]
     = ''[0:00 - 0:04] Speaker A:'' @ newline @ ''first'' @ newline @ newline
       @ ''[0:05 - 0:06] Speaker B:'' @ newline @ ''second'' @ newline
   \<and> formatUtterances [utterance_late, utterance_early]
       \<noteq> formatUtterances_by_start [utterance_late, utterance_early]
   \<and> formatTimestamp (Abs_safe_integer (- 1000)) = ''-1:-1''"
  by (simp add: formatUtterances_def formatUtterances_by_start_def utterance_block_def
      segment_text_def whole_seconds_def clock_text_def two_digits_def
      newline_def timestamp_eval utterance_early_def utterance_late_def signed_modulo_int_def)

section \<open>Submission never throws\<close>

text \<open>
  C9. For every blob and options, \<^verbatim>\<open>AssemblyAIAdapter.transcribe\<close> returns and never
  throws. When the upload or the transcript request fails by throwing \<open>x\<close> (the request
  rejects, the response is not ok, or its body does not parse), the result has status
  error, no job id and as error message the message of \<open>x\<close> when \<open>x\<close> is an
  \<^verbatim>\<open>Error\<close> and "Transcription failed" otherwise. When both succeed, the result has
  status processing, no error and as job id the id in the answer to the transcript request.
\<close>

theorem adapter_transcribe_never_throws:
  "\<exists>result w'. adapter_transcribe net apiKey audioBlob options w = (Returned result, w')
     \<and> (case submit_result net apiKey audioBlob options w of
           Inl x \<Rightarrow>
             result = \<lparr>r_jobId = None, r_status = Error, r_text = None,
                        r_error = Some (case x of JsError m \<Rightarrow> m
                                        | JsOther \<Rightarrow> ''Transcription failed'')\<rparr>
         | Inr transcriptId \<Rightarrow>
             result = \<lparr>r_jobId = Some transcriptId, r_status = Processing, r_text = None,
                        r_error = None\<rparr>)
     \<and> submit_result net apiKey audioBlob options w =
         (case upload_endpoint net (length (fetches w))
                 (PostUpload apiKey
                    (if blob_type audioBlob \<noteq> [] then blob_type audioBlob
                     else ''application/octet-stream'') audioBlob) of
            FetchRejects x \<Rightarrow> Inl x
          | FetchResolves response \<Rightarrow>
              if \<not> ok response
              then Inl (JsError (''Upload failed: '' @ string_of_nat (http_status response) @ '' ''
                                 @ statusText response))
              else (case body_json response of
                      Inl x \<Rightarrow> Inl x
                    | Inr uploaded \<Rightarrow>
                        (case transcript_endpoint net (Suc (length (fetches w)))
                                (PostTranscript apiKey
                                   (transcript_body (upload_url uploaded) options)) of
                           FetchRejects x \<Rightarrow> Inl x
                         | FetchResolves response2 \<Rightarrow>
                             if \<not> ok response2
                             then (case body_text response2 of
                                     Inl x \<Rightarrow> Inl x
                                   | Inr errorBody \<Rightarrow>
                                       Inl (JsError (''Transcription request failed: ''
                                              @ string_of_nat (http_status response2) @ '' ''
                                              @ statusText response2 @ '' - '' @ errorBody)))
                             else (case body_json response2 of
                                     Inl x \<Rightarrow> Inl x
                                   | Inr data \<Rightarrow> Inr (a_id data)))))"
proof -
  from adapter_transcribe_cases [of net apiKey audioBlob options w]
  obtain result w' where
    "adapter_transcribe net apiKey audioBlob options w = (Returned result, w')"
    "case submit_result net apiKey audioBlob options w of
           Inl x \<Rightarrow>
             result = \<lparr>r_jobId = None, r_status = Error, r_text = None,
                        r_error = Some (case x of JsError m \<Rightarrow> m
                                        | JsOther \<Rightarrow> ''Transcription failed'')\<rparr>
         | Inr transcriptId \<Rightarrow>
             result = \<lparr>r_jobId = Some transcriptId, r_status = Processing, r_text = None,
                        r_error = None\<rparr>"
    by blast
  with submit_result_replies [of net apiKey audioBlob options w] show ?thesis by blast
qed

text \<open>
  Three submissions of the same recording: one that succeeds, one on a network that is
  down, one refused by the provider.
\<close>

theorem adapter_transcribe_never_throws_witness:
  "submit_result completes ''key'' (blob example_recording) None example_world = Inr ''j1''
   \<and> (\<exists>w'. adapter_transcribe completes ''key'' (blob example_recording) None example_world
          = (Returned \<lparr>r_jobId = Some ''j1'', r_status = Processing, r_text = None,
                        r_error = None\<rparr>, w'))
   \<and> submit_result offline ''key'' (blob example_recording) None example_world
       = Inl (JsError ''Failed to fetch'')
   \<and> (\<exists>w'. adapter_transcribe offline ''key'' (blob example_recording) None example_world
          = (Returned \<lparr>r_jobId = None, r_status = Error, r_text = None,
                        r_error = Some ''Failed to fetch''\<rparr>, w'))
   \<and> submit_result unauthorized ''key'' (blob example_recording) None example_world
       = Inl (JsError ''Upload failed: 401 Unauthorized'')
   \<and> (\<exists>w'. adapter_transcribe unauthorized ''key'' (blob example_recording) None example_world
          = (Returned \<lparr>r_jobId = None, r_status = Error, r_text = None,
                        r_error = Some ''Upload failed: 401 Unauthorized''\<rparr>, w'))"
proof -
  have 1: "submit_result completes ''key'' (blob example_recording) None example_world = Inr ''j1''"
    by (simp add: submit_result_replies example_defs)
  have 2: "submit_result offline ''key'' (blob example_recording) None example_world
       = Inl (JsError ''Failed to fetch'')"
    by (simp add: submit_result_replies example_defs)
  have 3: "submit_result unauthorized ''key'' (blob example_recording) None example_world
       = Inl (JsError ''Upload failed: 401 Unauthorized'')"
    by (simp add: submit_result_replies example_defs string_of_nat.simps digit_char_def)
  from adapter_transcribe_never_throws [of completes "''key''" "blob example_recording" None example_world]
  have a: "\<exists>w'. adapter_transcribe completes ''key'' (blob example_recording) None example_world
          = (Returned \<lparr>r_jobId = Some ''j1'', r_status = Processing, r_text = None,
                        r_error = None\<rparr>, w')"
    by (auto simp: 1)
  from adapter_transcribe_never_throws [of offline "''key''" "blob example_recording" None example_world]
  have b: "\<exists>w'. adapter_transcribe offline ''key'' (blob example_recording) None example_world
          = (Returned \<lparr>r_jobId = None, r_status = Error, r_text = None,
                        r_error = Some ''Failed to fetch''\<rparr>, w')"
    by (auto simp: 2)
  from adapter_transcribe_never_throws [of unauthorized "''key''" "blob example_recording" None example_world]
  have c: "\<exists>w'. adapter_transcribe unauthorized ''key'' (blob example_recording) None example_world
          = (Returned \<lparr>r_jobId = None, r_status = Error, r_text = None,
                        r_error = Some ''Upload failed: 401 Unauthorized''\<rparr>, w')"
    by (auto simp: 3)
  from 1 2 3 a b c show ?thesis by blast
qed

end
